theory Spec2Isabelle
  imports Main "HOL-Library.AList" "HOL-Library.Sublist" "HOL-Library.Char_ord"
begin

section \<open>The metadata script retriever (script\_retriever.py)\<close>

text \<open>
  A shallow embedding of \<^verbatim>\<open>google_compute_engine/metadata_scripts/script_retriever.py\<close>.
  Every function of the module is a HOL function of the same name (without the leading
  underscore) that takes the state of the retriever and of its surroundings and returns
  its result with the new state. What the module calls but does not define
  (\<^verbatim>\<open>urlopen\<close>, \<^verbatim>\<open>urlretrieve\<close>, the metadata watcher) is a parameter, the record
  \<open>env\<close>; what it changes (the cached token, files, the log, the network and metadata
  calls made, the time slept) is the record \<open>state\<close>.
\<close>

subsection \<open>Exceptions\<close>

text \<open>
  The subclasses of Python's \<^verbatim>\<open>Exception\<close>, by the kinds the module tells apart: the
  three it names in its \<^verbatim>\<open>except\<close> clauses and every other one. Each carries the text
  that \<^verbatim>\<open>str(e)\<close> gives.
\<close>

datatype exn =
    HTTPException string
  | socket_error string
  | URLError string
  | Exception string

fun str :: "exn \<Rightarrow> string" where
  "str (HTTPException m) = m"
| "str (socket_error m) = m"
| "str (URLError m) = m"
| "str (Exception m) = m"

text \<open>\<^verbatim>\<open>isinstance(e, (httpclient.HTTPException, socket.error, urlerror.URLError))\<close>\<close>

fun retryable :: "exn \<Rightarrow> bool" where
  "retryable (HTTPException m) = True"
| "retryable (socket_error m) = True"
| "retryable (URLError m) = True"
| "retryable (Exception m) = False"

subsection \<open>The retry decorator\<close>

text \<open>
  \<^verbatim>\<open>
  def _RetryOnUnavailable(func):
    def Wrapper(*args, **kwargs):
      final_exception = None
      for _ in range(3):
        try:
          response = func(*args, **kwargs)
        except (httpclient.HTTPException, socket.error, urlerror.URLError) as e:
          final_exception = e
          time.sleep(5)
          continue
        else:
          return response
      raise final_exception
    return Wrapper
  \<close>
  The wrapped operation \<open>func\<close> (with its arguments applied) is any function from a state to
  a result, raised or returned, and a new state; \<open>sleep\<close> is what \<^verbatim>\<open>time.sleep\<close> does to
  that state. \<open>Wrapper\<close> is the loop over what is left of \<^verbatim>\<open>range(3)\<close>, with the
  variable \<^verbatim>\<open>final_exception\<close>; \<^verbatim>\<open>raise None\<close> is a \<^verbatim>\<open>TypeError\<close> in Python.
\<close>

fun Wrapper ::
  "nat list \<Rightarrow> (nat \<Rightarrow> 's \<Rightarrow> 's) \<Rightarrow> ('s \<Rightarrow> (exn + 'a) \<times> 's) \<Rightarrow> exn option \<Rightarrow> 's \<Rightarrow> (exn + 'a) \<times> 's"
where
  "Wrapper [] sleep func final_exception s =
     (case final_exception of
        Some e \<Rightarrow> (Inl e, s)
      | None \<Rightarrow> (Inl (Exception ''TypeError: exceptions must derive from BaseException''), s))"
| "Wrapper (i # rest) sleep func final_exception s =
     (case func s of
        (Inl e, s') \<Rightarrow>
          if retryable e then Wrapper rest sleep func (Some e) (sleep 5 s')
          else (Inl e, s')
      | (Inr response, s') \<Rightarrow> (Inr response, s'))"

definition RetryOnUnavailable ::
  "(nat \<Rightarrow> 's \<Rightarrow> 's) \<Rightarrow> ('s \<Rightarrow> (exn + 'a) \<times> 's) \<Rightarrow> 's \<Rightarrow> (exn + 'a) \<times> 's"
where
  "RetryOnUnavailable sleep func = Wrapper [0, 1, 2] sleep func None"

text \<open>
  To count attempts and waits of an arbitrary operation, the state is paired with a list
  of what happened: \<open>observed func\<close> is \<open>func\<close> that also notes its outcome, and
  \<open>observed_sleep sleep\<close> is \<open>sleep\<close> that also notes the seconds.
\<close>

datatype 'a step = Attempt "exn + 'a" | Wait nat

definition observed ::
  "('s \<Rightarrow> (exn + 'a) \<times> 's) \<Rightarrow> 's \<times> 'a step list \<Rightarrow> (exn + 'a) \<times> 's \<times> 'a step list"
where
  "observed func = (\<lambda>(s, tr). case func s of (r, s') \<Rightarrow> (r, s', tr @ [Attempt r]))"

definition observed_sleep ::
  "(nat \<Rightarrow> 's \<Rightarrow> 's) \<Rightarrow> nat \<Rightarrow> 's \<times> 'a step list \<Rightarrow> 's \<times> 'a step list"
where
  "observed_sleep sleep = (\<lambda>n (s, tr). (sleep n s, tr @ [Wait n]))"

fun retryable_failure :: "exn + 'a \<Rightarrow> bool" where
  "retryable_failure (Inl e) = retryable e"
| "retryable_failure (Inr v) = False"

text \<open>An operation that raises \<open>URLError\<close> on its first two calls and returns on the third;
  its state is the number of calls made.\<close>

definition flaky :: "nat \<Rightarrow> (exn + string) \<times> nat" where
  "flaky n = (if n < 2 then Inl (URLError ''timed out'') else Inr ''ok'', Suc n)"

subsection \<open>Regular expressions\<close>

text \<open>
  The part of Python's \<^verbatim>\<open>re\<close> syntax that the module's patterns use: literal text,
  a character class \<^verbatim>\<open>[...]\<close>, \<^verbatim>\<open>r?\<close>, \<^verbatim>\<open>[...]*\<close>, \<^verbatim>\<open>[...]+\<close> and
  concatenation. \<open>residuals r s\<close> lists, in the order a backtracking matcher tries them,
  what is left of \<open>s\<close> after each way of matching \<open>r\<close> at its start. Both patterns of the
  module stand between \<^verbatim>\<open>\A\<close> and \<^verbatim>\<open>\Z\<close> and are applied with \<^verbatim>\<open>match\<close>, which
  succeeds when some way of matching leaves nothing: \<open>re_match\<close>.
\<close>

datatype rexp =
    Lit string
  | Class "char \<Rightarrow> bool"
  | Opt rexp
  | Star "char \<Rightarrow> bool"
  | Plus "char \<Rightarrow> bool"
  | Seq rexp rexp

fun star_residuals :: "(char \<Rightarrow> bool) \<Rightarrow> string \<Rightarrow> string list" where
  "star_residuals p [] = [[]]"
| "star_residuals p (c # t) = (if p c then star_residuals p t @ [c # t] else [c # t])"

fun residuals :: "rexp \<Rightarrow> string \<Rightarrow> string list" where
  "residuals (Lit l) s = (if prefix l s then [drop (length l) s] else [])"
| "residuals (Class p) s = (case s of [] \<Rightarrow> [] | c # t \<Rightarrow> if p c then [t] else [])"
| "residuals (Opt r) s = residuals r s @ [s]"
| "residuals (Star p) s = star_residuals p s"
| "residuals (Plus p) s = (case s of [] \<Rightarrow> [] | c # t \<Rightarrow> if p c then star_residuals p t else [])"
| "residuals (Seq a b) s = concat (map (residuals b) (residuals a s))"

definition re_match :: "rexp \<Rightarrow> string \<Rightarrow> bool" where
  "re_match r s = ([] \<in> set (residuals r s))"

text \<open>The strings a pattern denotes.\<close>

fun lang :: "rexp \<Rightarrow> string set" where
  "lang (Lit l) = {l}"
| "lang (Class p) = {[c] | c. p c}"
| "lang (Opt r) = insert [] (lang r)"
| "lang (Star p) = {w. \<forall>c \<in> set w. p c}"
| "lang (Plus p) = {w. w \<noteq> [] \<and> (\<forall>c \<in> set w. p c)}"
| "lang (Seq a b) = {u @ v | u v. u \<in> lang a \<and> v \<in> lang b}"

text \<open>A range \<^verbatim>\<open>lo-hi\<close> inside a character class.\<close>

definition in_range :: "char \<Rightarrow> char \<Rightarrow> char \<Rightarrow> bool" where
  "in_range lo hi c = (lo \<le> c \<and> c \<le> hi)"

text \<open>
  The pieces of \<^verbatim>\<open>_DownloadScript\<close>'s patterns, under the names of its local variables:
  \<^verbatim>\<open>
  header = r'http[s]?://'
  domain = r'storage\.googleapis\.com'
  bucket = r'(?P<bucket>[a-z0-9][-_.a-z0-9]*[a-z0-9])'
  obj = r'(?P<obj>[^\*\?]+)'
  \<close>
  The two values of \<^verbatim>\<open>gs_regex\<close> are
  \<^verbatim>\<open>r'\A%s%s\.%s/%s\Z' % (header, bucket, domain, obj)\<close> and
  \<^verbatim>\<open>r'\A%s(commondata)?%s/%s/%s\Z' % (header, domain, bucket, obj)\<close>.
\<close>

definition header :: rexp where
  "header = Seq (Lit ''http'') (Seq (Opt (Class (\<lambda>c. c = CHR ''s''))) (Lit ''://''))"

definition domain :: rexp where
  "domain = Lit ''storage.googleapis.com''"

definition bucket :: rexp where
  "bucket =
     Seq (Class (\<lambda>c. in_range CHR ''a'' CHR ''z'' c \<or> in_range CHR ''0'' CHR ''9'' c))
    (Seq (Star (\<lambda>c. c = CHR ''-'' \<or> c = CHR ''_'' \<or> c = CHR ''.'' \<or>
                     in_range CHR ''a'' CHR ''z'' c \<or> in_range CHR ''0'' CHR ''9'' c))
         (Class (\<lambda>c. in_range CHR ''a'' CHR ''z'' c \<or> in_range CHR ''0'' CHR ''9'' c)))"

definition obj :: rexp where
  "obj = Plus (\<lambda>c. c \<noteq> CHR ''*'' \<and> c \<noteq> CHR ''?'')"

definition gs_regex_virtual :: rexp where
  "gs_regex_virtual =
     Seq header (Seq bucket (Seq (Lit ''.'') (Seq domain (Seq (Lit ''/'') obj))))"

definition gs_regex_path :: rexp where
  "gs_regex_path =
     Seq header (Seq (Opt (Lit ''commondata'')) (Seq domain
       (Seq (Lit ''/'') (Seq bucket (Seq (Lit ''/'') obj)))))"

text \<open>\<^verbatim>\<open>re.sub('^' + lit, repl, s)\<close> for literal text \<open>lit\<close> and \<open>repl\<close>: without the
  multi-line flag \<^verbatim>\<open>^\<close> matches at the start of the string only.\<close>

definition re_sub_start :: "string \<Rightarrow> string \<Rightarrow> string \<Rightarrow> string" where
  "re_sub_start lit repl s = (if prefix lit s then repl @ drop (length lit) s else s)"

text \<open>
  The URL forms in the words of the design document, to compare the patterns with:
  a bucket is a lower-case letter or digit, then any number of \<^verbatim>\<open>-\<close>, \<^verbatim>\<open>_\<close>, \<^verbatim>\<open>.\<close>,
  lower-case letters and digits, then a lower-case letter or digit; an object is any
  non-empty string without \<^verbatim>\<open>*\<close> and \<^verbatim>\<open>?\<close>.
\<close>

definition spec_alnum :: "char \<Rightarrow> bool" where
  "spec_alnum c = (in_range CHR ''a'' CHR ''z'' c \<or> in_range CHR ''0'' CHR ''9'' c)"

definition spec_bucket :: "string \<Rightarrow> bool" where
  "spec_bucket b =
     (\<exists>c mid d. b = c # mid @ [d] \<and> spec_alnum c \<and> spec_alnum d \<and>
        (\<forall>x \<in> set mid. spec_alnum x \<or> x \<in> set ''-_.''))"

definition spec_object :: "string \<Rightarrow> bool" where
  "spec_object ob = (ob \<noteq> [] \<and> CHR ''*'' \<notin> set ob \<and> CHR ''?'' \<notin> set ob)"

definition spec_virtual_hosted :: "string \<Rightarrow> bool" where
  "spec_virtual_hosted url =
     (\<exists>h b ob. (h = ''http://'' \<or> h = ''https://'') \<and> spec_bucket b \<and> spec_object ob \<and>
        url = h @ b @ ''.storage.googleapis.com/'' @ ob)"

definition spec_path_style :: "string \<Rightarrow> bool" where
  "spec_path_style url =
     (\<exists>h d b ob. (h = ''http://'' \<or> h = ''https://'') \<and>
        (d = ''storage.googleapis.com'' \<or> d = ''commondatastorage.googleapis.com'') \<and>
        spec_bucket b \<and> spec_object ob \<and> url = h @ d @ ''/'' @ b @ ''/'' @ ob)"

subsection \<open>The surroundings: network, metadata server, files, log\<close>

text \<open>
  A metadata tree as the design document describes it: top-level keys (\<^verbatim>\<open>instance\<close>,
  \<^verbatim>\<open>project\<close>), under each a mapping of keys (\<^verbatim>\<open>attributes\<close>) to mappings from
  strings to strings. A mapping is an association list read with \<open>map_of\<close>.
\<close>

type_synonym attributes = "(string \<times> string) list"

type_synonym metadata = "(string \<times> (string \<times> attributes) list) list"

text \<open>A request object: its URL and the headers added with
  \<^verbatim>\<open>add_unredirected_header\<close>, in the order they were added.\<close>

record request =
  full_url :: string
  unredirected_hdrs :: "(string \<times> string option) list"

definition Request :: "string \<Rightarrow> request" where
  "Request url = \<lparr>full_url = url, unredirected_hdrs = []\<rparr>"

definition add_unredirected_header :: "string \<Rightarrow> string option \<Rightarrow> request \<Rightarrow> request" where
  "add_unredirected_header key val req =
     req\<lparr>unredirected_hdrs := unredirected_hdrs req @ [(key, val)]\<rparr>"

datatype log_entry = info string | warning string

datatype net_call = urlopen_call request | urlretrieve_call string string

text \<open>A call of the watcher's \<^verbatim>\<open>GetMetadata\<close>: with no argument, or with a key and the
  \<^verbatim>\<open>recursive\<close> and \<^verbatim>\<open>retry\<close> flags.\<close>

datatype md_query = query_all | query_key string bool bool

text \<open>
  What the surroundings answer. The network's answer to a call may depend on the calls
  made before it, the metadata server's on the queries made before it.
  \<^item> \<open>on_urlopen\<close>: \<^verbatim>\<open>urlopen(request)\<close> raises or returns a response, and
    \<^verbatim>\<open>.read().decode('utf-8')\<close> on that response raises or returns the text;
  \<^item> \<open>on_urlretrieve\<close>: \<^verbatim>\<open>urlretrieve(url, dest)\<close> raises or stores the text it
    fetched in the file \<open>dest\<close>;
  \<^item> \<open>on_GetMetadata\<close>: the watcher's answer to \<^verbatim>\<open>GetMetadata()\<close>, a tree or
    \<^verbatim>\<open>None\<close>;
  \<^item> \<open>on_GetMetadata_key\<close>: its answer to \<^verbatim>\<open>GetMetadata(key, recursive=.., retry=..)\<close>
    for the token key, a mapping or \<^verbatim>\<open>None\<close>.
\<close>

record env =
  on_urlopen :: "net_call list \<Rightarrow> request \<Rightarrow> exn + (exn + string)"
  on_urlretrieve :: "net_call list \<Rightarrow> string \<Rightarrow> exn + string"
  on_GetMetadata :: "md_query list \<Rightarrow> metadata option"
  on_GetMetadata_key :: "md_query list \<Rightarrow> string \<Rightarrow> attributes option"

text \<open>
  The retriever's fields \<^verbatim>\<open>script_type\<close> and \<^verbatim>\<open>token\<close>, and what it has done to its
  surroundings: the files (path and content), the log, the network calls and metadata
  queries made so far, the seconds spent in \<^verbatim>\<open>time.sleep\<close>.
\<close>

record state =
  script_type :: string
  token :: "string option"
  files :: "(string \<times> string) list"
  logged :: "log_entry list"
  net :: "net_call list"
  queries :: "md_query list"
  slept :: nat

definition token_metadata_key :: string where
  "token_metadata_key = ''instance/service-accounts/default/token''"

definition time_sleep :: "nat \<Rightarrow> state \<Rightarrow> state" where
  "time_sleep n s = s\<lparr>slept := slept s + n\<rparr>"

definition logger_info :: "string \<Rightarrow> state \<Rightarrow> state" where
  "logger_info msg s = s\<lparr>logged := logged s @ [info msg]\<rparr>"

definition logger_warning :: "string \<Rightarrow> state \<Rightarrow> state" where
  "logger_warning msg s = s\<lparr>logged := logged s @ [warning msg]\<rparr>"

definition urlopen :: "env \<Rightarrow> request \<Rightarrow> state \<Rightarrow> (exn + (exn + string)) \<times> state" where
  "urlopen env req s = (on_urlopen env (net s) req, s\<lparr>net := net s @ [urlopen_call req]\<rparr>)"

definition write_file :: "string \<Rightarrow> string \<Rightarrow> state \<Rightarrow> state" where
  "write_file path content s = s\<lparr>files := AList.update path content (files s)\<rparr>"

definition urlretrieve :: "env \<Rightarrow> string \<Rightarrow> string \<Rightarrow> state \<Rightarrow> (exn + unit) \<times> state" where
  "urlretrieve env url dest s =
     (case on_urlretrieve env (net s) url of
        Inl e \<Rightarrow> (Inl e, s\<lparr>net := net s @ [urlretrieve_call url dest]\<rparr>)
      | Inr content \<Rightarrow>
          (Inr (), write_file dest content (s\<lparr>net := net s @ [urlretrieve_call url dest]\<rparr>)))"

definition GetMetadata :: "env \<Rightarrow> state \<Rightarrow> metadata option \<times> state" where
  "GetMetadata env s = (on_GetMetadata env (queries s), s\<lparr>queries := queries s @ [query_all]\<rparr>)"

definition GetMetadata_key ::
  "env \<Rightarrow> string \<Rightarrow> bool \<Rightarrow> bool \<Rightarrow> state \<Rightarrow> attributes option \<times> state"
where
  "GetMetadata_key env key recursive retry s =
     (on_GetMetadata_key env (queries s) key,
      s\<lparr>queries := queries s @ [query_key key recursive retry]\<rparr>)"

text \<open>
  \<^verbatim>\<open>tempfile.NamedTemporaryFile(dir=dest_dir, delete=False)\<close> creates an empty file
  under a name that no file has: it tries names until one is unused. The names it tries
  are random; here they are \<^verbatim>\<open>tmp0\<close>, \<^verbatim>\<open>tmp1\<close>, ... in this order.
  This is the call in a directory where a file can be created; \<open>NamedTemporaryFile_io\<close>
  below is the call with the exception that it raises otherwise.
\<close>

definition digit :: "nat \<Rightarrow> char" where
  "digit d = ''0123456789'' ! d"

fun decimal :: "nat \<Rightarrow> string" where
  "decimal n = (if n < 10 then [digit n] else decimal (n div 10) @ [digit (n mod 10)])"

declare decimal.simps [simp del]

definition tmp_candidate :: "string \<Rightarrow> nat \<Rightarrow> string" where
  "tmp_candidate dir k = dir @ ''/tmp'' @ decimal k"

function unused_name :: "string \<Rightarrow> string list \<Rightarrow> nat \<Rightarrow> string" where
  "unused_name dir existing k =
     (if tmp_candidate dir k \<in> set existing
      then unused_name dir (removeAll (tmp_candidate dir k) existing) (Suc k)
      else tmp_candidate dir k)"
  by pat_completeness auto
termination
  by (relation "measure (\<lambda>(dir, existing, k). length existing)")
     (auto simp: length_removeAll_less)

declare unused_name.simps [simp del]

definition NamedTemporaryFile :: "string \<Rightarrow> state \<Rightarrow> string \<times> state" where
  "NamedTemporaryFile dir s =
     (let name = unused_name dir (map fst (files s)) 0
      in (name, write_file name [] s))"

text \<open>\<^verbatim>\<open>str.lstrip()\<close>: the white space of Python's text strings among the code points
  below 256.\<close>

definition isspace :: "char \<Rightarrow> bool" where
  "isspace c = (of_char c \<in> {9, 10, 11, 12, 13, 28, 29, 30, 31, 32, 133, 160 :: nat})"

definition lstrip :: "string \<Rightarrow> string" where
  "lstrip v = dropWhile isspace v"

subsection \<open>The retriever\<close>

text \<open>
  \<^verbatim>\<open>
  @_RetryOnUnavailable
  def _UrlOpenWithRetry(request):
    return urlrequest.urlopen(request)

  @_RetryOnUnavailable
  def _UrlRetrieveWithRetry(url, dest):
    return urlretrieve.urlretrieve(url, dest)
  \<close>
\<close>

definition UrlOpenWithRetry :: "env \<Rightarrow> request \<Rightarrow> state \<Rightarrow> (exn + (exn + string)) \<times> state" where
  "UrlOpenWithRetry env req = RetryOnUnavailable time_sleep (urlopen env req)"

definition UrlRetrieveWithRetry :: "env \<Rightarrow> string \<Rightarrow> string \<Rightarrow> state \<Rightarrow> (exn + unit) \<times> state" where
  "UrlRetrieveWithRetry env url dest = RetryOnUnavailable time_sleep (urlretrieve env url dest)"

text \<open>
  \<^verbatim>\<open>_DownloadUrl\<close> (lines 125 to 147). A result \<open>Inl e\<close> is an exception that leaves the
  function, \<open>Inr None\<close> is the return value \<^verbatim>\<open>None\<close>, \<open>Inr (Some dest)\<close> a path.
  The first \<^verbatim>\<open>except\<close> clause takes the three kinds of \<open>retryable\<close>, the second
  every other \<^verbatim>\<open>Exception\<close>. The temporary file of line 135 is created before the
  \<^verbatim>\<open>try\<close>; here it can be created, and \<open>DownloadUrl_io\<close> below is the function
  with the exception of that line.
\<close>

definition DownloadUrl :: "env \<Rightarrow> string \<Rightarrow> string \<Rightarrow> state \<Rightarrow> (exn + string option) \<times> state" where
  "DownloadUrl env url dest_dir s0 =
     (let (dest, s1) = NamedTemporaryFile dest_dir s0;
          s2 = logger_info (''Downloading url from '' @ url @ '' to '' @ dest @ ''.'') s1
      in case UrlRetrieveWithRetry env url dest s2 of
           (Inr _, s3) \<Rightarrow> (Inr (Some dest), s3)
         | (Inl e, s3) \<Rightarrow>
             if retryable e
             then (Inr None,
                   logger_warning (''Could not download '' @ url @ ''. '' @ str e @ ''.'') s3)
             else (Inr None,
                   logger_warning (''Exception downloading '' @ url @ ''. '' @ str e @ ''.'') s3))"

text \<open>Python's truth value of \<^verbatim>\<open>self.token\<close> (\<^verbatim>\<open>None\<close> or a string) and of the
  watcher's response (\<^verbatim>\<open>None\<close> or a mapping).\<close>

fun truthy :: "'a list option \<Rightarrow> bool" where
  "truthy None = False"
| "truthy (Some v) = (v \<noteq> [])"

text \<open>\<^verbatim>\<open>response.get(key, '')\<close>\<close>

definition get_or_empty :: "attributes \<Rightarrow> string \<Rightarrow> string" where
  "get_or_empty response key = (case map_of response key of None \<Rightarrow> [] | Some v \<Rightarrow> v)"

text \<open>
  \<^verbatim>\<open>_DownloadAuthUrl\<close> (lines 79 to 123). The pair \<open>(fallback, s3)\<close> is the outcome of
  lines 98 to 109: \<open>fallback\<close> holds when the function returns through \<^verbatim>\<open>_DownloadUrl\<close>
  at line 106. The \<^verbatim>\<open>try\<close> block covers the request, \<^verbatim>\<open>_UrlOpenWithRetry\<close> and
  \<^verbatim>\<open>.read().decode('utf-8')\<close>, and its \<^verbatim>\<open>except Exception\<close> takes every \<open>exn\<close>.
  The temporary file of line 91 is created before the \<^verbatim>\<open>try\<close> and the text is
  written after it, at lines 120 and 121; here the file can be created, the request
  built and the text written, and \<open>DownloadAuthUrl_io\<close> below is the function with the
  exceptions of these lines.
\<close>

definition DownloadAuthUrl :: "env \<Rightarrow> string \<Rightarrow> string \<Rightarrow> state \<Rightarrow> (exn + string option) \<times> state" where
  "DownloadAuthUrl env url dest_dir s0 =
     (let (dest, s1) = NamedTemporaryFile dest_dir s0;
          s2 = logger_info (''Downloading url from '' @ url @ '' to '' @ dest @
                 '' using authentication token.'') s1;
          (fallback, s3) =
            (if \<not> truthy (token s2) then
               (case GetMetadata_key env token_metadata_key False False s2 of
                  (response, s) \<Rightarrow>
                    if \<not> truthy response then
                      (True, logger_info
                         ''Authentication token not found. Attempting unauthenticated download.'' s)
                    else
                      (False, s\<lparr>token := Some (get_or_empty (the response) ''token_type'' @ '' '' @
                                               get_or_empty (the response) ''access_token'')\<rparr>))
             else (False, s2))
      in if fallback then DownloadUrl env url dest_dir s3
         else
           (let request = Request url;
                request = add_unredirected_header ''Metadata-Flavor'' (Some ''Google'') request;
                request = add_unredirected_header ''Authorization'' (token s3) request
            in case UrlOpenWithRetry env request s3 of
                 (Inl e, s4) \<Rightarrow>
                   (Inr None, logger_warning (''Could not download '' @ url @ ''. '' @ str e @ ''.'') s4)
               | (Inr (Inl e), s4) \<Rightarrow>
                   (Inr None, logger_warning (''Could not download '' @ url @ ''. '' @ str e @ ''.'') s4)
               | (Inr (Inr content), s4) \<Rightarrow>
                   (Inr (Some dest), write_file dest content s4)))"

text \<open>\<^verbatim>\<open>_DownloadScript\<close> (lines 149 to 199).\<close>

definition DownloadScript :: "env \<Rightarrow> string \<Rightarrow> string \<Rightarrow> state \<Rightarrow> (exn + string option) \<times> state" where
  "DownloadScript env url dest_dir s =
     (if prefix ''gs://'' url then
        DownloadAuthUrl env (re_sub_start ''gs://'' ''https://storage.googleapis.com/'' url) dest_dir s
      else if re_match gs_regex_virtual url then DownloadAuthUrl env url dest_dir s
      else if re_match gs_regex_path url then DownloadAuthUrl env url dest_dir s
      else DownloadUrl env url dest_dir s)"

text \<open>
  \<^verbatim>\<open>_GetAttributeScripts\<close> (lines 201 to 231). \<open>attribute_data\<close> is \<^verbatim>\<open>None\<close> or a
  mapping; the result mapping \<^verbatim>\<open>script_dict\<close> has a path or \<^verbatim>\<open>None\<close> under each key.
\<close>

definition GetAttributeScripts ::
  "env \<Rightarrow> attributes option \<Rightarrow> string \<Rightarrow> state \<Rightarrow> (exn + (string \<times> string option) list) \<times> state"
where
  "GetAttributeScripts env attribute_data dest_dir s0 =
     (let script_dict = [];
          attribute_data = (case attribute_data of None \<Rightarrow> [] | Some d \<Rightarrow> d);
          metadata_key = script_type s0 @ ''-script'';
          metadata_value = map_of attribute_data metadata_key;
          (script_dict, s1) =
            (if truthy metadata_value then
               (let s = logger_info (''Found '' @ metadata_key @ '' in metadata.'') s0;
                    (dest, s) = NamedTemporaryFile dest_dir s;
                    s = write_file dest (lstrip (the metadata_value)) s
                in (AList.update metadata_key (Some dest) script_dict, s))
             else (script_dict, s0));
          metadata_key = script_type s1 @ ''-script-url'';
          metadata_value = map_of attribute_data metadata_key
      in if truthy metadata_value then
           (let s2 = logger_info (''Found '' @ metadata_key @ '' in metadata.'') s1
            in case DownloadScript env (the metadata_value) dest_dir s2 of
                 (Inl e, s3) \<Rightarrow> (Inl e, s3)
               | (Inr downloaded_dest, s3) \<Rightarrow>
                   (Inr (AList.update metadata_key downloaded_dest script_dict),
                    if downloaded_dest = None
                    then logger_warning ''Failed to download metadata script.'' s3 else s3))
         else (Inr script_dict, s1))"

text \<open>\<^verbatim>\<open>metadata_dict[k1][k2]\<close>; \<open>None\<close> is the \<^verbatim>\<open>KeyError\<close>.\<close>

definition getitem2 :: "metadata \<Rightarrow> string \<Rightarrow> string \<Rightarrow> attributes option" where
  "getitem2 metadata_dict k1 k2 =
     (case map_of metadata_dict k1 of None \<Rightarrow> None | Some sub \<Rightarrow> map_of sub k2)"

text \<open>\<^verbatim>\<open>GetScripts\<close> (lines 233 to 257). Python's \<^verbatim>\<open>a or b\<close> on mappings is \<open>a\<close> when
  \<open>a\<close> has an entry, and evaluates \<open>b\<close> only otherwise.\<close>

definition GetScripts ::
  "env \<Rightarrow> string \<Rightarrow> state \<Rightarrow> (exn + (string \<times> string option) list) \<times> state"
where
  "GetScripts env dest_dir s0 =
     (let (response, s1) = GetMetadata env s0;
          metadata_dict = (case response of None \<Rightarrow> [] | Some d \<Rightarrow> d);
          (instance_data, s2) =
            (case getitem2 metadata_dict ''instance'' ''attributes'' of
               Some d \<Rightarrow> (Some d, s1)
             | None \<Rightarrow> (None, logger_warning ''Instance attributes were not found.'' s1));
          (project_data, s3) =
            (case getitem2 metadata_dict ''project'' ''attributes'' of
               Some d \<Rightarrow> (Some d, s2)
             | None \<Rightarrow> (None, logger_warning ''Project attributes were not found.'' s2))
      in case GetAttributeScripts env instance_data dest_dir s3 of
           (Inl e, s4) \<Rightarrow> (Inl e, s4)
         | (Inr instance_scripts, s4) \<Rightarrow>
             if instance_scripts \<noteq> [] then (Inr instance_scripts, s4)
             else GetAttributeScripts env project_data dest_dir s4)"

text \<open>The request that \<^verbatim>\<open>_DownloadAuthUrl\<close> builds for a URL and a token.\<close>

definition auth_request :: "string \<Rightarrow> string option \<Rightarrow> request" where
  "auth_request url tok =
     \<lparr>full_url = url,
      unredirected_hdrs = [(''Metadata-Flavor'', Some ''Google''), (''Authorization'', tok)]\<rparr>"

text \<open>A state with more entries in front of its log.\<close>

definition log_before :: "log_entry list \<Rightarrow> state \<Rightarrow> state" where
  "log_before l s = s\<lparr>logged := l @ logged s\<rparr>"

subsection \<open>The download functions with the exceptions of the file system\<close>

text \<open>
  Three library calls of the download functions can raise without any network being
  involved: \<^verbatim>\<open>tempfile.NamedTemporaryFile\<close> when no file can be created in the directory
  (a directory that does not exist gives \<^verbatim>\<open>FileNotFoundError\<close>), \<^verbatim>\<open>Request(url)\<close>
  when it finds no scheme in the URL (\<^verbatim>\<open>ValueError\<close>), and \<^verbatim>\<open>open(dest, 'w')\<close> with
  \<^verbatim>\<open>f.write(content)\<close> when the text cannot be written. Which of them raise, and what,
  is a parameter, the record \<open>faults\<close>: the exception for a directory, for a URL, for a
  path and a text.

  \<open>NamedTemporaryFile\<close>, \<open>DownloadUrl\<close> and \<open>DownloadAuthUrl\<close> above are these calls and
  functions on a file system that accepts every operation. \<open>NamedTemporaryFile_io\<close>,
  \<open>DownloadUrl_io\<close> and \<open>DownloadAuthUrl_io\<close> are the same lines of the source with the
  exceptions: the temporary file is created before the \<^verbatim>\<open>try\<close> (lines 91 and 135), the
  request is built inside it (line 112), and the text is written after it (lines 120 and
  121). An exception raised outside the \<^verbatim>\<open>try\<close> leaves the function, with the state
  as it was when it was raised. \<^verbatim>\<open>_GetAttributeScripts\<close> makes the same call at line
  217 for an inline script; \<open>GetAttributeScripts\<close> above is the function in a directory
  where the file can be created and written.
\<close>

record faults =
  tempfile_raises :: "string \<Rightarrow> exn option"
  Request_raises :: "string \<Rightarrow> exn option"
  write_raises :: "string \<Rightarrow> string \<Rightarrow> exn option"

definition NamedTemporaryFile_io :: "faults \<Rightarrow> string \<Rightarrow> state \<Rightarrow> (exn + string) \<times> state" where
  "NamedTemporaryFile_io fl dir s =
     (case tempfile_raises fl dir of
        Some e \<Rightarrow> (Inl e, s)
      | None \<Rightarrow> (case NamedTemporaryFile dir s of (name, s') \<Rightarrow> (Inr name, s')))"

definition DownloadUrl_io ::
  "faults \<Rightarrow> env \<Rightarrow> string \<Rightarrow> string \<Rightarrow> state \<Rightarrow> (exn + string option) \<times> state"
where
  "DownloadUrl_io fl env url dest_dir s0 =
     (case NamedTemporaryFile_io fl dest_dir s0 of
        (Inl e, s1) \<Rightarrow> (Inl e, s1)
      | (Inr dest, s1) \<Rightarrow>
          (let s2 = logger_info (''Downloading url from '' @ url @ '' to '' @ dest @ ''.'') s1
           in case UrlRetrieveWithRetry env url dest s2 of
                (Inr _, s3) \<Rightarrow> (Inr (Some dest), s3)
              | (Inl e, s3) \<Rightarrow>
                  if retryable e
                  then (Inr None,
                        logger_warning (''Could not download '' @ url @ ''. '' @ str e @ ''.'') s3)
                  else (Inr None,
                        logger_warning (''Exception downloading '' @ url @ ''. '' @ str e @ ''.'')
                          s3)))"

definition DownloadAuthUrl_io ::
  "faults \<Rightarrow> env \<Rightarrow> string \<Rightarrow> string \<Rightarrow> state \<Rightarrow> (exn + string option) \<times> state"
where
  "DownloadAuthUrl_io fl env url dest_dir s0 =
     (case NamedTemporaryFile_io fl dest_dir s0 of
        (Inl e, s1) \<Rightarrow> (Inl e, s1)
      | (Inr dest, s1) \<Rightarrow>
          (let s2 = logger_info (''Downloading url from '' @ url @ '' to '' @ dest @
                      '' using authentication token.'') s1;
               (fallback, s3) =
                 (if \<not> truthy (token s2) then
                    (case GetMetadata_key env token_metadata_key False False s2 of
                       (response, s) \<Rightarrow>
                         if \<not> truthy response then
                           (True, logger_info
                              ''Authentication token not found. Attempting unauthenticated download.'' s)
                         else
                           (False, s\<lparr>token := Some (get_or_empty (the response) ''token_type'' @
                                                    '' '' @
                                                    get_or_empty (the response) ''access_token'')\<rparr>))
                  else (False, s2))
           in if fallback then DownloadUrl_io fl env url dest_dir s3
              else
                (case Request_raises fl url of
                   Some e \<Rightarrow>
                     (Inr None,
                      logger_warning (''Could not download '' @ url @ ''. '' @ str e @ ''.'') s3)
                 | None \<Rightarrow>
                     (let request = Request url;
                          request = add_unredirected_header ''Metadata-Flavor'' (Some ''Google'')
                                      request;
                          request = add_unredirected_header ''Authorization'' (token s3) request
                      in case UrlOpenWithRetry env request s3 of
                           (Inl e, s4) \<Rightarrow>
                             (Inr None,
                              logger_warning (''Could not download '' @ url @ ''. '' @ str e @ ''.'')
                                s4)
                         | (Inr (Inl e), s4) \<Rightarrow>
                             (Inr None,
                              logger_warning (''Could not download '' @ url @ ''. '' @ str e @ ''.'')
                                s4)
                         | (Inr (Inr content), s4) \<Rightarrow>
                             (case write_raises fl dest content of
                                Some e \<Rightarrow> (Inl e, s4)
                              | None \<Rightarrow> (Inr (Some dest), write_file dest content s4))))))"

subsection \<open>Surroundings and states for the examples\<close>

text \<open>A network on which every call fails and a metadata server that answers nothing;
  a retriever for start-up scripts that has done nothing yet.\<close>

definition unreachable :: env where
  "unreachable =
     \<lparr>on_urlopen = (\<lambda>calls req. Inl (URLError ''unreachable'')),
      on_urlretrieve = (\<lambda>calls url. Inl (URLError ''unreachable'')),
      on_GetMetadata = (\<lambda>qs. None),
      on_GetMetadata_key = (\<lambda>qs key. None)\<rparr>"

text \<open>A network that serves a one-line script and a metadata server that has a token.\<close>

definition serving :: env where
  "serving =
     \<lparr>on_urlopen = (\<lambda>calls req. Inr (Inr ''echo hi'')),
      on_urlretrieve = (\<lambda>calls url. Inr ''echo hi''),
      on_GetMetadata = (\<lambda>qs. None),
      on_GetMetadata_key =
        (\<lambda>qs key. Some [(''access_token'', ''abc''), (''expires_in'', ''3599''),
                        (''token_type'', ''Bearer'')])\<rparr>"

definition fresh_retriever :: state where
  "fresh_retriever =
     \<lparr>script_type = ''startup'', token = None, files = [], logged = [], net = [],
      queries = [], slept = 0\<rparr>"

text \<open>A file system that accepts everything, and one on which the directory
  \<^verbatim>\<open>/nonexistent\<close> does not exist: creating a file there raises an \<^verbatim>\<open>OSError\<close>.
  The exception is raised outside every \<^verbatim>\<open>try\<close>, so that its kind is never tested.\<close>

definition accepting :: faults where
  "accepting =
     \<lparr>tempfile_raises = (\<lambda>dir. None), Request_raises = (\<lambda>url. None),
      write_raises = (\<lambda>path content. None)\<rparr>"

definition no_such_directory :: faults where
  "no_such_directory =
     \<lparr>tempfile_raises =
        (\<lambda>dir. if dir = ''/nonexistent''
               then Some (Exception ''[Errno 2] No such file or directory'') else None),
      Request_raises = (\<lambda>url. None),
      write_raises = (\<lambda>path content. None)\<rparr>"

text \<open>A file system on which files are created and nothing can be written to them.\<close>

definition disk_full :: faults where
  "disk_full =
     \<lparr>tempfile_raises = (\<lambda>dir. None), Request_raises = (\<lambda>url. None),
      write_raises = (\<lambda>path content. Some (Exception ''[Errno 28] No space left on device''))\<rparr>"

section \<open>The retry decorator: attempts, waits and the exception raised\<close>

text \<open>
  C3. For every wrapped operation \<open>func\<close>, every effect \<open>sleep\<close> of waiting and every
  starting state, the observed run of the retry decorator does what the plain run does,
  and what it notes is one of four lists: one attempt whose outcome is the result; a
  retryable failure, a wait of 5 seconds and an attempt whose outcome is the result; two
  retryable failures, each followed by a wait of 5 seconds, and an attempt whose outcome
  is the result; or three retryable failures, each followed by a wait of 5 seconds, the
  result being the exception of the third. In the first three the result is a returned
  value or an exception that is not retryable. So there are at most three attempts, 5
  seconds are waited between one attempt and the next, only the three retryable kinds are
  retried, any other exception and any returned value ends the run at once, and after
  three retryable failures the last exception is raised.
\<close>

theorem RetryOnUnavailable_contract:
  "case RetryOnUnavailable (observed_sleep sleep) (observed func) (s, []) of
     (r, s', tr) \<Rightarrow>
       RetryOnUnavailable sleep func s = (r, s') \<and>
       ((tr = [Attempt r] \<and> \<not> retryable_failure r) \<or>
        (\<exists>e1. retryable e1 \<and> tr = [Attempt (Inl e1), Wait 5, Attempt r] \<and>
           \<not> retryable_failure r) \<or>
        (\<exists>e1 e2. retryable e1 \<and> retryable e2 \<and>
           tr = [Attempt (Inl e1), Wait 5, Attempt (Inl e2), Wait 5, Attempt r] \<and>
           \<not> retryable_failure r) \<or>
        (\<exists>e1 e2 e3. retryable e1 \<and> retryable e2 \<and> retryable e3 \<and> r = Inl e3 \<and>
           tr = [Attempt (Inl e1), Wait 5, Attempt (Inl e2), Wait 5,
                 Attempt (Inl e3), Wait 5]))"
  by (auto simp: RetryOnUnavailable_def observed_def observed_sleep_def
           split: prod.splits sum.splits)

text \<open>The operation that fails twice and then returns: three attempts, two waits, and
  the value of the third attempt.\<close>

theorem RetryOnUnavailable_contract_witness:
  "RetryOnUnavailable (\<lambda>n s. s) flaky 0 = (Inr ''ok'', 3) \<and>
   RetryOnUnavailable (observed_sleep (\<lambda>n s. s)) (observed flaky) (0, []) =
     (Inr ''ok'', 3,
      [Attempt (Inl (URLError ''timed out'')), Wait 5,
       Attempt (Inl (URLError ''timed out'')), Wait 5, Attempt (Inr ''ok'')])"
  using RetryOnUnavailable_contract [of "\<lambda>n s. s" flaky 0]
  by (simp add: RetryOnUnavailable_def observed_def observed_sleep_def flaky_def)

section \<open>The patterns of \<^verbatim>\<open>_DownloadScript\<close> and the URL forms they accept\<close>

text \<open>What the matcher leaves of a string are the ends of its splits into a word of the
  pattern's language and a rest.\<close>

lemma star_residuals_iff:
  "t \<in> set (star_residuals p s) \<longleftrightarrow> (\<exists>u. s = u @ t \<and> (\<forall>c \<in> set u. p c))"
proof (induction s)
  case Nil
  then show ?case by auto
next
  case (Cons c s)
  show ?case
  proof (cases "p c")
    case True
    then show ?thesis
      using Cons.IH by (auto simp: Cons_eq_append_conv)
  next
    case False
    then show ?thesis by (auto simp: Cons_eq_append_conv)
  qed
qed

lemma residuals_iff:
  "t \<in> set (residuals r s) \<longleftrightarrow> (\<exists>u. s = u @ t \<and> u \<in> lang r)"
proof (induction r arbitrary: s t)
  case (Lit l)
  show ?case by (auto simp: prefix_def)
next
  case (Class p)
  show ?case by (cases s) auto
next
  case (Opt r)
  then show ?case by auto
next
  case (Star p)
  show ?case by (simp add: star_residuals_iff)
next
  case (Plus p)
  show ?case
  proof (cases s)
    case Nil
    then show ?thesis by simp
  next
    case (Cons c s')
    then show ?thesis
      by (auto simp: star_residuals_iff Cons_eq_append_conv)
  qed
next
  case (Seq a b)
  have "t \<in> set (residuals (Seq a b) s) \<longleftrightarrow>
        (\<exists>m \<in> set (residuals a s). t \<in> set (residuals b m))"
    by simp
  also have "\<dots> \<longleftrightarrow> (\<exists>m. (\<exists>u. s = u @ m \<and> u \<in> lang a) \<and> (\<exists>v. m = v @ t \<and> v \<in> lang b))"
    unfolding Bex_def Seq.IH ..
  also have "\<dots> \<longleftrightarrow> (\<exists>u v. s = u @ v @ t \<and> u \<in> lang a \<and> v \<in> lang b)"
    by blast
  also have "\<dots> \<longleftrightarrow> (\<exists>w. s = w @ t \<and> w \<in> lang (Seq a b))"
    by fastforce
  finally show ?case .
qed

lemma re_match_lang: "re_match r s \<longleftrightarrow> s \<in> lang r"
  by (simp add: re_match_def residuals_iff)

lemma lang_header: "lang header = {''http://'', ''https://''}"
  unfolding header_def lang.simps by auto

lemma lang_obj: "lang obj = {ob. spec_object ob}"
  unfolding obj_def spec_object_def lang.simps by auto

lemma lang_bucket: "lang bucket = {b. spec_bucket b}"
proof -
  have "b \<in> lang bucket \<longleftrightarrow> spec_bucket b" for b
  proof
    assume "b \<in> lang bucket"
    then obtain u m v where "b = u @ m @ v" "u \<in> lang (Class spec_alnum)"
      "m \<in> lang (Star (\<lambda>c. c = CHR ''-'' \<or> c = CHR ''_'' \<or> c = CHR ''.'' \<or> spec_alnum c))"
      "v \<in> lang (Class spec_alnum)"
      unfolding bucket_def spec_alnum_def lang.simps(6) by blast
    then show "spec_bucket b" unfolding spec_bucket_def by auto
  next
    assume "spec_bucket b"
    then obtain c mid d where b: "b = c # mid @ [d]" and c: "spec_alnum c" and d: "spec_alnum d"
      and mid: "\<forall>x \<in> set mid. spec_alnum x \<or> x \<in> set ''-_.''"
      unfolding spec_bucket_def by blast
    have "[c] \<in> lang (Class spec_alnum)" using c by simp
    moreover have "mid \<in> lang (Star (\<lambda>c. c = CHR ''-'' \<or> c = CHR ''_'' \<or> c = CHR ''.'' \<or> spec_alnum c))"
      using mid by auto
    moreover have "[d] \<in> lang (Class spec_alnum)" using d by simp
    ultimately have "[c] @ mid @ [d] \<in> lang (Seq (Class spec_alnum)
        (Seq (Star (\<lambda>c. c = CHR ''-'' \<or> c = CHR ''_'' \<or> c = CHR ''.'' \<or> spec_alnum c)) (Class spec_alnum)))"
      unfolding lang.simps(6) by blast
    then show "b \<in> lang bucket"
      unfolding b bucket_def spec_alnum_def by simp
  qed
  then show ?thesis by blast
qed


lemma lang_Seq_iff: "w \<in> lang (Seq a b) \<longleftrightarrow> (\<exists>u v. w = u @ v \<and> u \<in> lang a \<and> v \<in> lang b)"
  by simp

lemma lang_Lit_Seq_iff: "w \<in> lang (Seq (Lit l) r) \<longleftrightarrow> (\<exists>v. w = l @ v \<and> v \<in> lang r)"
  by simp

lemma lang_virtual_tail:
  "w \<in> lang (Seq (Lit ''.'') (Seq domain (Seq (Lit ''/'') obj))) \<longleftrightarrow>
   (\<exists>ob. spec_object ob \<and> w = ''.storage.googleapis.com/'' @ ob)"
  unfolding domain_def lang_Lit_Seq_iff lang_obj by auto

lemma lang_gs_regex_virtual: "url \<in> lang gs_regex_virtual \<longleftrightarrow> spec_virtual_hosted url"
proof -
  have "url \<in> lang gs_regex_virtual \<longleftrightarrow>
        (\<exists>h r. url = h @ r \<and> h \<in> lang header \<and>
           (\<exists>b t. r = b @ t \<and> b \<in> lang bucket \<and>
              t \<in> lang (Seq (Lit ''.'') (Seq domain (Seq (Lit ''/'') obj)))))"
    unfolding gs_regex_virtual_def lang_Seq_iff [of _ header] lang_Seq_iff [of _ bucket] ..
  also have "\<dots> \<longleftrightarrow> spec_virtual_hosted url"
    unfolding lang_virtual_tail lang_header lang_bucket spec_virtual_hosted_def by blast
  finally show ?thesis .
qed


lemma lang_path_tail:
  "w \<in> lang (Seq domain (Seq (Lit ''/'') (Seq bucket (Seq (Lit ''/'') obj)))) \<longleftrightarrow>
   (\<exists>b ob. spec_bucket b \<and> spec_object ob \<and>
      w = ''storage.googleapis.com'' @ ''/'' @ b @ ''/'' @ ob)"
  unfolding domain_def lang_Lit_Seq_iff lang_Seq_iff [of _ bucket] lang_bucket lang_obj
  by blast

lemma lang_path_prefix:
  "r \<in> lang (Seq (Opt (Lit ''commondata'')) (Seq domain (Seq (Lit ''/'') (Seq bucket (Seq (Lit ''/'') obj))))) \<longleftrightarrow>
   (\<exists>d b ob. (d = ''storage.googleapis.com'' \<or> d = ''commondatastorage.googleapis.com'') \<and>
      spec_bucket b \<and> spec_object ob \<and> r = d @ ''/'' @ b @ ''/'' @ ob)"
  (is "?L \<longleftrightarrow> ?R")
proof
  assume ?L
  then obtain c t where r: "r = c @ t" and c: "c = [] \<or> c = ''commondata''"
    and t: "t \<in> lang (Seq domain (Seq (Lit ''/'') (Seq bucket (Seq (Lit ''/'') obj))))"
    unfolding lang_Seq_iff [of _ "Opt (Lit ''commondata'')"] lang.simps(3) lang.simps(1) by blast
  from t obtain b ob where b: "spec_bucket b" and ob: "spec_object ob"
    and t': "t = ''storage.googleapis.com'' @ ''/'' @ b @ ''/'' @ ob"
    unfolding lang_path_tail by blast
  from c show ?R
  proof
    assume "c = []"
    then have "r = ''storage.googleapis.com'' @ ''/'' @ b @ ''/'' @ ob"
      using r t' by simp
    with b ob show ?R by blast
  next
    assume "c = ''commondata''"
    then have "r = ''commondatastorage.googleapis.com'' @ ''/'' @ b @ ''/'' @ ob"
      using r t' by simp
    with b ob show ?R by blast
  qed
next
  assume ?R
  then obtain d b ob where d: "d = ''storage.googleapis.com'' \<or> d = ''commondatastorage.googleapis.com''"
    and b: "spec_bucket b" and ob: "spec_object ob" and r: "r = d @ ''/'' @ b @ ''/'' @ ob"
    by blast
  have t: "''storage.googleapis.com'' @ ''/'' @ b @ ''/'' @ ob
           \<in> lang (Seq domain (Seq (Lit ''/'') (Seq bucket (Seq (Lit ''/'') obj))))"
    unfolding lang_path_tail using b ob by blast
  from d obtain c where c: "c = [] \<or> c = ''commondata''"
    and r': "r = c @ ''storage.googleapis.com'' @ ''/'' @ b @ ''/'' @ ob"
  proof
    assume "d = ''storage.googleapis.com''"
    then have "r = [] @ ''storage.googleapis.com'' @ ''/'' @ b @ ''/'' @ ob" using r by simp
    then show ?thesis using that by blast
  next
    assume "d = ''commondatastorage.googleapis.com''"
    then have "r = ''commondata'' @ ''storage.googleapis.com'' @ ''/'' @ b @ ''/'' @ ob" using r by simp
    then show ?thesis using that by blast
  qed
  from c have "c \<in> lang (Opt (Lit ''commondata''))" by auto
  with t r' show ?L
    unfolding lang_Seq_iff [of _ "Opt (Lit ''commondata'')"] by blast
qed

lemma lang_gs_regex_path: "url \<in> lang gs_regex_path \<longleftrightarrow> spec_path_style url"
proof -
  have "url \<in> lang gs_regex_path \<longleftrightarrow>
        (\<exists>h r. url = h @ r \<and> h \<in> lang header \<and>
           r \<in> lang (Seq (Opt (Lit ''commondata'')) (Seq domain (Seq (Lit ''/'') (Seq bucket (Seq (Lit ''/'') obj))))))"
    unfolding gs_regex_path_def lang_Seq_iff [of _ header] ..
  also have "\<dots> \<longleftrightarrow> spec_path_style url"
    unfolding lang_path_prefix lang_header spec_path_style_def by blast
  finally show ?thesis .
qed

lemma gs_regex_virtual_iff: "re_match gs_regex_virtual url \<longleftrightarrow> spec_virtual_hosted url"
  by (simp only: re_match_lang lang_gs_regex_virtual)

lemma gs_regex_path_iff: "re_match gs_regex_path url \<longleftrightarrow> spec_path_style url"
  by (simp only: re_match_lang lang_gs_regex_path)

section \<open>Evaluating the model on examples\<close>

lemma decimal_0: "decimal 0 = ''0''"
  by (subst decimal.simps) (simp add: digit_def)

lemma decimal_1: "decimal (Suc 0) = ''1''"
  by (subst decimal.simps) (simp add: digit_def)

lemmas prims = time_sleep_def logger_info_def logger_warning_def urlopen_def write_file_def
  urlretrieve_def GetMetadata_def GetMetadata_key_def NamedTemporaryFile_def
  UrlOpenWithRetry_def UrlRetrieveWithRetry_def RetryOnUnavailable_def
  Request_def add_unredirected_header_def tmp_candidate_def unused_name.simps
  decimal_0 decimal_1 get_or_empty_def token_metadata_key_def Let_def

lemmas rx = re_match_def gs_regex_virtual_def gs_regex_path_def header_def domain_def
  bucket_def obj_def in_range_def re_sub_start_def

section \<open>\<^verbatim>\<open>_DownloadScript\<close>: which URLs are downloaded with the token\<close>

lemma spec_forms_not_gs:
  "spec_virtual_hosted url \<or> spec_path_style url \<Longrightarrow> \<not> prefix ''gs://'' url"
  unfolding spec_virtual_hosted_def spec_path_style_def by (auto simp: prefix_def)

text \<open>
  C2, as the code has it. A URL of the virtual-hosted form
  \<^verbatim>\<open>http(s)://<bucket>.storage.googleapis.com/<object>\<close> or of the path form
  \<^verbatim>\<open>http(s)://(commondata)storage.googleapis.com/<bucket>/<object>\<close>, where the bucket
  matches \<^verbatim>\<open>[a-z0-9][-_.a-z0-9]*[a-z0-9]\<close> (so it has at least two characters) and
  the object is non-empty and has no \<^verbatim>\<open>*\<close> or \<^verbatim>\<open>?\<close>, is handed to
  \<^verbatim>\<open>_DownloadAuthUrl\<close> unchanged. A URL that does not begin with \<^verbatim>\<open>gs://\<close> and is,
  as a whole string, of neither form is handed to \<^verbatim>\<open>_DownloadUrl\<close>.
\<close>

theorem DownloadScript_routing:
  "(spec_virtual_hosted url \<or> spec_path_style url \<longrightarrow>
      DownloadScript env url dest_dir s = DownloadAuthUrl env url dest_dir s) \<and>
   (\<not> prefix ''gs://'' url \<and> \<not> spec_virtual_hosted url \<and> \<not> spec_path_style url \<longrightarrow>
      DownloadScript env url dest_dir s = DownloadUrl env url dest_dir s)"
  using spec_forms_not_gs [of url]
  by (auto simp: DownloadScript_def gs_regex_virtual_iff gs_regex_path_iff)

text \<open>With the two-character bucket \<^verbatim>\<open>bk\<close> the three Google Storage URLs are of the
  forms and go to \<^verbatim>\<open>_DownloadAuthUrl\<close>; \<^verbatim>\<open>https://example.com/script.sh\<close> is of
  neither and goes to \<^verbatim>\<open>_DownloadUrl\<close>.\<close>

theorem DownloadScript_routing_witness:
  "spec_virtual_hosted ''http://bk.storage.googleapis.com/o'' \<and>
   DownloadScript unreachable ''http://bk.storage.googleapis.com/o'' ''/run'' fresh_retriever =
     DownloadAuthUrl unreachable ''http://bk.storage.googleapis.com/o'' ''/run'' fresh_retriever \<and>
   spec_path_style ''https://storage.googleapis.com/bk/o'' \<and>
   DownloadScript unreachable ''https://storage.googleapis.com/bk/o'' ''/run'' fresh_retriever =
     DownloadAuthUrl unreachable ''https://storage.googleapis.com/bk/o'' ''/run'' fresh_retriever \<and>
   spec_path_style ''https://commondatastorage.googleapis.com/bk/o'' \<and>
   DownloadScript unreachable ''https://commondatastorage.googleapis.com/bk/o'' ''/run'' fresh_retriever =
     DownloadAuthUrl unreachable ''https://commondatastorage.googleapis.com/bk/o'' ''/run'' fresh_retriever \<and>
   \<not> prefix ''gs://'' ''https://example.com/script.sh'' \<and>
   \<not> spec_virtual_hosted ''https://example.com/script.sh'' \<and>
   \<not> spec_path_style ''https://example.com/script.sh'' \<and>
   DownloadScript unreachable ''https://example.com/script.sh'' ''/run'' fresh_retriever =
     DownloadUrl unreachable ''https://example.com/script.sh'' ''/run'' fresh_retriever"
proof -
  have a: "spec_virtual_hosted ''http://bk.storage.googleapis.com/o''"
    unfolding gs_regex_virtual_iff [symmetric] by (simp add: rx)
  have b: "spec_path_style ''https://storage.googleapis.com/bk/o''"
    unfolding gs_regex_path_iff [symmetric] by (simp add: rx)
  have c: "spec_path_style ''https://commondatastorage.googleapis.com/bk/o''"
    unfolding gs_regex_path_iff [symmetric] by (simp add: rx)
  have d: "\<not> prefix ''gs://'' ''https://example.com/script.sh''" by simp
  have e: "\<not> spec_virtual_hosted ''https://example.com/script.sh''"
    unfolding gs_regex_virtual_iff [symmetric] by (simp add: rx)
  have f: "\<not> spec_path_style ''https://example.com/script.sh''"
    unfolding gs_regex_path_iff [symmetric] by (simp add: rx)
  show ?thesis
    using a b c d e f
      DownloadScript_routing [of "''http://bk.storage.googleapis.com/o''" unreachable "''/run''" fresh_retriever]
      DownloadScript_routing [of "''https://storage.googleapis.com/bk/o''" unreachable "''/run''" fresh_retriever]
      DownloadScript_routing [of "''https://commondatastorage.googleapis.com/bk/o''" unreachable "''/run''" fresh_retriever]
      DownloadScript_routing [of "''https://example.com/script.sh''" unreachable "''/run''" fresh_retriever]
    by blast
qed

text \<open>
  The three URLs as the claim writes them have the one-character bucket \<^verbatim>\<open>b\<close>, which
  the bucket pattern does not match: on a retriever without a token each of them is
  handed to \<^verbatim>\<open>_DownloadUrl\<close>, and the outcome differs from that of
  \<^verbatim>\<open>_DownloadAuthUrl\<close> (which logs its own message and asks for a token first).
\<close>

theorem DownloadScript_literal_urls_counterexample:
  "DownloadScript unreachable ''http://b.storage.googleapis.com/o'' ''/run'' fresh_retriever
     = DownloadUrl unreachable ''http://b.storage.googleapis.com/o'' ''/run'' fresh_retriever \<and>
   DownloadScript unreachable ''http://b.storage.googleapis.com/o'' ''/run'' fresh_retriever
     \<noteq> DownloadAuthUrl unreachable ''http://b.storage.googleapis.com/o'' ''/run'' fresh_retriever \<and>
   DownloadScript unreachable ''https://storage.googleapis.com/b/o'' ''/run'' fresh_retriever
     = DownloadUrl unreachable ''https://storage.googleapis.com/b/o'' ''/run'' fresh_retriever \<and>
   DownloadScript unreachable ''https://storage.googleapis.com/b/o'' ''/run'' fresh_retriever
     \<noteq> DownloadAuthUrl unreachable ''https://storage.googleapis.com/b/o'' ''/run'' fresh_retriever \<and>
   DownloadScript unreachable ''https://commondatastorage.googleapis.com/b/o'' ''/run'' fresh_retriever
     = DownloadUrl unreachable ''https://commondatastorage.googleapis.com/b/o'' ''/run'' fresh_retriever \<and>
   DownloadScript unreachable ''https://commondatastorage.googleapis.com/b/o'' ''/run'' fresh_retriever
     \<noteq> DownloadAuthUrl unreachable ''https://commondatastorage.googleapis.com/b/o'' ''/run'' fresh_retriever"
  by (simp add: DownloadScript_def rx DownloadUrl_def DownloadAuthUrl_def unreachable_def
        fresh_retriever_def prims)

text \<open>
  C4. For every URL that begins with \<^verbatim>\<open>gs://\<close>, whatever follows the prefix,
  \<^verbatim>\<open>_DownloadScript\<close> replaces the prefix by \<^verbatim>\<open>https://storage.googleapis.com/\<close> and
  hands the rewritten URL to \<^verbatim>\<open>_DownloadAuthUrl\<close>.
\<close>

theorem DownloadScript_gs:
  "DownloadScript env (''gs://'' @ rest) dest_dir s =
   DownloadAuthUrl env (''https://storage.googleapis.com/'' @ rest) dest_dir s"
  by (simp add: DownloadScript_def re_sub_start_def)

theorem DownloadScript_gs_witness:
  "DownloadScript unreachable ''gs://bucket/object'' ''/run'' fresh_retriever =
   DownloadAuthUrl unreachable ''https://storage.googleapis.com/bucket/object'' ''/run'' fresh_retriever \<and>
   hd (logged (snd (DownloadScript unreachable ''gs://bucket/object'' ''/run'' fresh_retriever))) =
   info ''Downloading url from https://storage.googleapis.com/bucket/object to /run/tmp0 using authentication token.''"
  using DownloadScript_gs [of unreachable "''bucket/object''" "''/run''" fresh_retriever]
  by (simp add: DownloadScript_def re_sub_start_def DownloadAuthUrl_def DownloadUrl_def
        unreachable_def fresh_retriever_def prims)

section \<open>Temporary files have names that no file has\<close>

lemma digit_inj: "a < 10 \<Longrightarrow> b < 10 \<Longrightarrow> digit a = digit b \<Longrightarrow> a = b"
proof -
  assume "a < 10" "b < 10" "digit a = digit b"
  have cases: "n < 10 \<Longrightarrow> n \<in> {0, 1, 2, 3, 4, 5, 6, 7, 8, 9}" for n :: nat by auto
  from cases [OF \<open>a < 10\<close>] cases [OF \<open>b < 10\<close>] \<open>digit a = digit b\<close>
  show "a = b" by (auto simp: digit_def)
qed

lemma decimal_nonempty: "decimal n \<noteq> []"
  by (subst decimal.simps) simp

lemma decimal_inj: "decimal m = decimal n \<Longrightarrow> m = n"
proof (induction m arbitrary: n rule: decimal.induct)
  case (1 m)
  show ?case
  proof (cases "m < 10")
    case small_m: True
    show ?thesis
    proof (cases "n < 10")
      case True
      with small_m "1.prems" show ?thesis
        by (simp add: decimal.simps [of m] decimal.simps [of n] digit_inj)
    next
      case False
      with small_m "1.prems" decimal_nonempty [of "n div 10"] show ?thesis
        by (simp add: decimal.simps [of m] decimal.simps [of n])
    qed
  next
    case big_m: False
    show ?thesis
    proof (cases "n < 10")
      case True
      with big_m "1.prems" decimal_nonempty [of "m div 10"] show ?thesis
        by (simp add: decimal.simps [of m] decimal.simps [of n])
    next
      case False
      with big_m "1.prems" have eq: "decimal (m div 10) = decimal (n div 10)"
        and d: "digit (m mod 10) = digit (n mod 10)"
        by (simp_all add: decimal.simps [of m] decimal.simps [of n])
      from "1.IH" [OF big_m eq] have "m div 10 = n div 10" .
      moreover from d have "m mod 10 = n mod 10" by (simp add: digit_inj)
      ultimately show ?thesis by (metis div_mult_mod_eq)
    qed
  qed
qed

lemma tmp_candidate_inj: "tmp_candidate dir j = tmp_candidate dir k \<longleftrightarrow> j = k"
  by (auto simp: tmp_candidate_def dest: decimal_inj)

lemma unused_name_is_candidate: "\<exists>j\<ge>k. unused_name dir existing k = tmp_candidate dir j"
proof (induction dir existing k rule: unused_name.induct)
  case (1 dir existing k)
  show ?case
  proof (cases "tmp_candidate dir k \<in> set existing")
    case True
    from "1.IH" [OF True] obtain j where "j \<ge> Suc k"
      "unused_name dir (removeAll (tmp_candidate dir k) existing) (Suc k) = tmp_candidate dir j"
      by blast
    with True show ?thesis
      by (subst unused_name.simps) (auto intro: exI [of _ j])
  next
    case False
    then show ?thesis by (subst unused_name.simps) auto
  qed
qed

lemma unused_name_fresh: "unused_name dir existing k \<notin> set existing"
proof (induction dir existing k rule: unused_name.induct)
  case (1 dir existing k)
  show ?case
  proof (cases "tmp_candidate dir k \<in> set existing")
    case True
    let ?rest = "removeAll (tmp_candidate dir k) existing"
    from unused_name_is_candidate [of "Suc k" dir ?rest] obtain j where j: "j \<ge> Suc k"
      and eq: "unused_name dir ?rest (Suc k) = tmp_candidate dir j" by blast
    from j have "tmp_candidate dir j \<noteq> tmp_candidate dir k"
      by (simp add: tmp_candidate_inj)
    moreover from "1.IH" [OF True] have "unused_name dir ?rest (Suc k) \<notin> set ?rest" .
    ultimately have "unused_name dir ?rest (Suc k) \<notin> set existing"
      using eq by auto
    with True show ?thesis by (subst unused_name.simps) simp
  next
    case False
    then show ?thesis by (subst unused_name.simps) simp
  qed
qed

section \<open>The steps of the download functions\<close>

lemma NamedTemporaryFile_effect:
  assumes "NamedTemporaryFile dir s = (p, s')"
  shows "p = unused_name dir (map fst (files s)) 0"
    and "p \<notin> fst ` set (files s)"
    and "\<exists>k. p = tmp_candidate dir k"
    and "files s' = AList.update p [] (files s)"
    and "s' = s\<lparr>files := files s'\<rparr>"
  using assms unused_name_fresh [of dir "map fst (files s)" 0]
    unused_name_is_candidate [of 0 dir "map fst (files s)"]
  by (auto simp: NamedTemporaryFile_def write_file_def Let_def)

lemma Wrapper_invariant:
  assumes "\<And>s. I s \<Longrightarrow> I (snd (func s))" and "\<And>n s. I s \<Longrightarrow> I (sleep n s)" and "I s"
  shows "I (snd (Wrapper l sleep func fe s))"
  using assms(3)
proof (induction l arbitrary: fe s)
  case Nil
  then show ?case by (simp split: option.splits)
next
  case (Cons i l)
  obtain r s' where f: "func s = (r, s')" by (cases "func s")
  with assms(1) [OF Cons.prems] have s': "I s'" by simp
  show ?case
  proof (cases r)
    case (Inl e)
    with f s' Cons.IH [OF assms(2) [OF s', of 5], of "Some e"] show ?thesis by simp
  next
    case (Inr v)
    with f s' show ?thesis by simp
  qed
qed

lemma Wrapper_all_fail:
  assumes "\<And>s. \<exists>e. fst (func s) = Inl e"
  shows "\<exists>e. fst (Wrapper l sleep func fe s) = Inl e"
proof (induction l arbitrary: fe s)
  case Nil
  then show ?case by (simp split: option.splits)
next
  case (Cons i l)
  from assms [of s] obtain e s' where "func s = (Inl e, s')" by (cases "func s") auto
  with Cons.IH show ?case by simp
qed

lemma Wrapper_all_return:
  assumes "\<And>s. \<exists>v. fst (func s) = Inr v"
  shows "\<exists>v. fst (Wrapper (i # l) sleep func fe s) = Inr v"
proof -
  from assms [of s] obtain v s' where "func s = (Inr v, s')" by (cases "func s") auto
  then show ?thesis by simp
qed


lemma urlretrieve_keeps_file:
  "p \<in> fst ` set (files s) \<Longrightarrow> p \<in> fst ` set (files (snd (urlretrieve env url dest s)))"
  by (auto simp: urlretrieve_def write_file_def dom_update split: sum.splits)

lemma UrlRetrieveWithRetry_keeps_file:
  assumes "p \<in> fst ` set (files s)"
  shows "p \<in> fst ` set (files (snd (UrlRetrieveWithRetry env url dest s)))"
  unfolding UrlRetrieveWithRetry_def RetryOnUnavailable_def
  by (rule Wrapper_invariant [where I = "\<lambda>x. p \<in> fst ` set (files x)"])
     (simp_all add: urlretrieve_keeps_file time_sleep_def assms)

lemma DownloadUrl_cases:
  obtains (failed) dest s1 e s3 where
      "NamedTemporaryFile dest_dir s = (dest, s1)"
      "UrlRetrieveWithRetry env url dest
         (logger_info (''Downloading url from '' @ url @ '' to '' @ dest @ ''.'') s1) = (Inl e, s3)"
      "DownloadUrl env url dest_dir s =
         (Inr None, logger_warning
            ((if retryable e then ''Could not download '' else ''Exception downloading '') @
             url @ ''. '' @ str e @ ''.'') s3)"
  | (fetched) dest s1 s3 where
      "NamedTemporaryFile dest_dir s = (dest, s1)"
      "UrlRetrieveWithRetry env url dest
         (logger_info (''Downloading url from '' @ url @ '' to '' @ dest @ ''.'') s1) = (Inr (), s3)"
      "DownloadUrl env url dest_dir s = (Inr (Some dest), s3)"
proof -
  obtain dest s1 where n: "NamedTemporaryFile dest_dir s = (dest, s1)"
    by (cases "NamedTemporaryFile dest_dir s")
  obtain r s3 where u: "UrlRetrieveWithRetry env url dest
      (logger_info (''Downloading url from '' @ url @ '' to '' @ dest @ ''.'') s1) = (r, s3)"
    by (cases "UrlRetrieveWithRetry env url dest
      (logger_info (''Downloading url from '' @ url @ '' to '' @ dest @ ''.'') s1)")
  show thesis
  proof (cases r)
    case (Inl e)
    with n u have "DownloadUrl env url dest_dir s =
         (Inr None, logger_warning
            ((if retryable e then ''Could not download '' else ''Exception downloading '') @
             url @ ''. '' @ str e @ ''.'') s3)"
      by (simp add: DownloadUrl_def)
    with n u Inl show thesis using failed by blast
  next
    case (Inr v)
    with n u have "DownloadUrl env url dest_dir s = (Inr (Some dest), s3)"
      by (simp add: DownloadUrl_def)
    with n u Inr show thesis using fetched by simp
  qed
qed


lemma NamedTemporaryFile_fields:
  assumes "NamedTemporaryFile dir s = (p, s')"
  shows "token s' = token s" "queries s' = queries s" "net s' = net s" "logged s' = logged s"
    "script_type s' = script_type s" "slept s' = slept s"
  using assms by (auto simp: NamedTemporaryFile_def write_file_def Let_def)

lemma DownloadAuthUrl_cases:
  fixes env url dest_dir s
  defines "started dest s1 \<equiv>
    logger_info (''Downloading url from '' @ url @ '' to '' @ dest @ '' using authentication token.'') s1"
  defines "asked dest s1 \<equiv>
    (started dest s1)\<lparr>queries := queries s @ [query_key token_metadata_key False False]\<rparr>"
  obtains (fallback) dest s1 where
      "NamedTemporaryFile dest_dir s = (dest, s1)"
      "\<not> truthy (token s)"
      "\<not> truthy (on_GetMetadata_key env (queries s) token_metadata_key)"
      "DownloadAuthUrl env url dest_dir s =
         DownloadUrl env url dest_dir
           (logger_info ''Authentication token not found. Attempting unauthenticated download.''
              (asked dest s1))"
  | (failed) dest s1 s3 e s4 where
      "NamedTemporaryFile dest_dir s = (dest, s1)"
      "truthy (token s) \<and> s3 = started dest s1 \<or>
       \<not> truthy (token s) \<and> (\<exists>response.
          on_GetMetadata_key env (queries s) token_metadata_key = Some response \<and> response \<noteq> [] \<and>
          s3 = (asked dest s1)\<lparr>token := Some (get_or_empty response ''token_type'' @ '' '' @
                                              get_or_empty response ''access_token'')\<rparr>)"
      "fst (UrlOpenWithRetry env (auth_request url (token s3)) s3) = Inl e \<or>
       fst (UrlOpenWithRetry env (auth_request url (token s3)) s3) = Inr (Inl e)"
      "snd (UrlOpenWithRetry env (auth_request url (token s3)) s3) = s4"
      "DownloadAuthUrl env url dest_dir s =
         (Inr None, logger_warning (''Could not download '' @ url @ ''. '' @ str e @ ''.'') s4)"
  | (fetched) dest s1 s3 content s4 where
      "NamedTemporaryFile dest_dir s = (dest, s1)"
      "truthy (token s) \<and> s3 = started dest s1 \<or>
       \<not> truthy (token s) \<and> (\<exists>response.
          on_GetMetadata_key env (queries s) token_metadata_key = Some response \<and> response \<noteq> [] \<and>
          s3 = (asked dest s1)\<lparr>token := Some (get_or_empty response ''token_type'' @ '' '' @
                                              get_or_empty response ''access_token'')\<rparr>)"
      "UrlOpenWithRetry env (auth_request url (token s3)) s3 = (Inr (Inr content), s4)"
      "DownloadAuthUrl env url dest_dir s = (Inr (Some dest), write_file dest content s4)"
proof -
  obtain dest s1 where n: "NamedTemporaryFile dest_dir s = (dest, s1)"
    by (cases "NamedTemporaryFile dest_dir s")
  note f = NamedTemporaryFile_fields [OF n]
  have req: "add_unredirected_header ''Authorization'' tok
      (add_unredirected_header ''Metadata-Flavor'' (Some ''Google'') (Request url)) = auth_request url tok" for tok
    by (simp add: add_unredirected_header_def Request_def auth_request_def)
  consider (a) "\<not> truthy (token s)" "\<not> truthy (on_GetMetadata_key env (queries s) token_metadata_key)"
    | (b) s3 where "truthy (token s) \<and> s3 = started dest s1 \<or>
       \<not> truthy (token s) \<and> (\<exists>response.
          on_GetMetadata_key env (queries s) token_metadata_key = Some response \<and> response \<noteq> [] \<and>
          s3 = (asked dest s1)\<lparr>token := Some (get_or_empty response ''token_type'' @ '' '' @
                                              get_or_empty response ''access_token'')\<rparr>)"
      "DownloadAuthUrl env url dest_dir s =
        (case UrlOpenWithRetry env (auth_request url (token s3)) s3 of
           (Inl e, s4) \<Rightarrow>
             (Inr None, logger_warning (''Could not download '' @ url @ ''. '' @ str e @ ''.'') s4)
         | (Inr (Inl e), s4) \<Rightarrow>
             (Inr None, logger_warning (''Could not download '' @ url @ ''. '' @ str e @ ''.'') s4)
         | (Inr (Inr content), s4) \<Rightarrow> (Inr (Some dest), write_file dest content s4))"
  proof (cases "truthy (token s)")
    case True
    with n f have "DownloadAuthUrl env url dest_dir s =
        (case UrlOpenWithRetry env (auth_request url (token (started dest s1))) (started dest s1) of
           (Inl e, s4) \<Rightarrow>
             (Inr None, logger_warning (''Could not download '' @ url @ ''. '' @ str e @ ''.'') s4)
         | (Inr (Inl e), s4) \<Rightarrow>
             (Inr None, logger_warning (''Could not download '' @ url @ ''. '' @ str e @ ''.'') s4)
         | (Inr (Inr content), s4) \<Rightarrow> (Inr (Some dest), write_file dest content s4))"
      by (simp add: DownloadAuthUrl_def started_def logger_info_def req)
    with True show ?thesis using b by blast
  next
    case no_token: False
    show ?thesis
    proof (cases "truthy (on_GetMetadata_key env (queries s) token_metadata_key)")
      case False
      with no_token show ?thesis using a by blast
    next
      case True
      then obtain response where r: "on_GetMetadata_key env (queries s) token_metadata_key = Some response"
        "response \<noteq> []"
        by (cases "on_GetMetadata_key env (queries s) token_metadata_key") auto
      let ?s3 = "(asked dest s1)\<lparr>token := Some (get_or_empty response ''token_type'' @ '' '' @
                                              get_or_empty response ''access_token'')\<rparr>"
      from n f no_token r have "DownloadAuthUrl env url dest_dir s =
        (case UrlOpenWithRetry env (auth_request url (token ?s3)) ?s3 of
           (Inl e, s4) \<Rightarrow>
             (Inr None, logger_warning (''Could not download '' @ url @ ''. '' @ str e @ ''.'') s4)
         | (Inr (Inl e), s4) \<Rightarrow>
             (Inr None, logger_warning (''Could not download '' @ url @ ''. '' @ str e @ ''.'') s4)
         | (Inr (Inr content), s4) \<Rightarrow> (Inr (Some dest), write_file dest content s4))"
        by (simp add: DownloadAuthUrl_def started_def asked_def logger_info_def req
              GetMetadata_key_def)
      with no_token r show ?thesis using b [of ?s3] by blast
    qed
  qed
  then show thesis
  proof cases
    case a
    with n f have "DownloadAuthUrl env url dest_dir s =
         DownloadUrl env url dest_dir
           (logger_info ''Authentication token not found. Attempting unauthenticated download.''
              (asked dest s1))"
      by (simp add: DownloadAuthUrl_def started_def asked_def logger_info_def GetMetadata_key_def)
    with n a show thesis using fallback by blast
  next
    case (b s3)
    obtain r s4 where u: "UrlOpenWithRetry env (auth_request url (token s3)) s3 = (r, s4)"
      by (cases "UrlOpenWithRetry env (auth_request url (token s3)) s3")
    show thesis
    proof (cases r)
      case (Inl e)
      with b u n show thesis using failed [of dest s1 s3 e s4] by simp
    next
      case (Inr resp)
      show thesis
      proof (cases resp)
        case (Inl e)
        with Inr b u n show thesis using failed [of dest s1 s3 e s4] by simp
      next
        case inner: (Inr content)
        with Inr b u n show thesis using fetched [of dest s1 s3 content s4] by simp
      qed
    qed
  qed
qed

section \<open>The download functions return a path or \<^verbatim>\<open>None\<close>\<close>

lemma urlopen_keeps_files: "files (snd (urlopen env req s)) = files s"
  by (simp add: urlopen_def)

lemma UrlOpenWithRetry_keeps_files: "files (snd (UrlOpenWithRetry env req s)) = files s"
  unfolding UrlOpenWithRetry_def RetryOnUnavailable_def
  by (rule Wrapper_invariant [where I = "\<lambda>x. files x = files s"])
     (simp_all add: urlopen_def time_sleep_def)

lemma UrlRetrieveWithRetry_all_fail:
  assumes "\<forall>calls u. \<exists>e. on_urlretrieve env calls u = Inl e"
  shows "\<exists>e. fst (UrlRetrieveWithRetry env url dest s) = Inl e"
  unfolding UrlRetrieveWithRetry_def RetryOnUnavailable_def
proof (rule Wrapper_all_fail)
  fix x :: state
  from assms obtain e where "on_urlretrieve env (net x) url = Inl e" by blast
  then show "\<exists>e. fst (urlretrieve env url dest x) = Inl e" by (simp add: urlretrieve_def)
qed

lemma UrlOpenWithRetry_all_fail:
  assumes "\<forall>calls r. \<exists>e. on_urlopen env calls r = Inl e"
  shows "\<exists>e. fst (UrlOpenWithRetry env req s) = Inl e"
  unfolding UrlOpenWithRetry_def RetryOnUnavailable_def
proof (rule Wrapper_all_fail)
  fix x :: state
  from assms obtain e where "on_urlopen env (net x) req = Inl e" by blast
  then show "\<exists>e. fst (urlopen env req x) = Inl e" by (simp add: urlopen_def)
qed

lemma DownloadUrl_returns:
  "\<exists>r s'. DownloadUrl env url dest_dir s = (Inr r, s') \<and>
     (r = None \<longrightarrow> (\<exists>e. last (logged s') = warning (''Could not download '' @ url @ ''. '' @ str e @ ''.'') \<or>
                         last (logged s') = warning (''Exception downloading '' @ url @ ''. '' @ str e @ ''.''))) \<and>
     (\<forall>p. r = Some p \<longrightarrow> p \<in> fst ` set (files s') \<and> p \<notin> fst ` set (files s))"
proof (cases rule: DownloadUrl_cases [of dest_dir s env url])
  case (failed dest s1 e s3)
  then show ?thesis by (auto simp: logger_warning_def)
next
  case (fetched dest s1 s3)
  note n = NamedTemporaryFile_effect [OF fetched(1)]
  from n(4) have "dest \<in> fst ` set (files s1)" by (simp add: dom_update)
  then have "dest \<in> fst ` set (files (logger_info (''Downloading url from '' @ url @ '' to '' @ dest @ ''.'') s1))"
    by (simp add: logger_info_def)
  from UrlRetrieveWithRetry_keeps_file [OF this, of env url dest] fetched(2)
  have "dest \<in> fst ` set (files s3)" by simp
  with n(2) fetched(3) show ?thesis by simp
qed

lemma DownloadUrl_all_fail:
  assumes "\<forall>calls u. \<exists>e. on_urlretrieve env calls u = Inl e"
  shows "fst (DownloadUrl env url dest_dir s) = Inr None"
proof (cases rule: DownloadUrl_cases [of dest_dir s env url])
  case (failed dest s1 e s3)
  then show ?thesis by simp
next
  case (fetched dest s1 s3)
  with UrlRetrieveWithRetry_all_fail [OF assms, of url dest
      "logger_info (''Downloading url from '' @ url @ '' to '' @ dest @ ''.'') s1"]
  show ?thesis by simp
qed

lemma DownloadAuthUrl_returns:
  "\<exists>r s'. DownloadAuthUrl env url dest_dir s = (Inr r, s') \<and>
     (r = None \<longrightarrow> (\<exists>e. last (logged s') = warning (''Could not download '' @ url @ ''. '' @ str e @ ''.'') \<or>
                         last (logged s') = warning (''Exception downloading '' @ url @ ''. '' @ str e @ ''.''))) \<and>
     (\<forall>p. r = Some p \<longrightarrow> p \<in> fst ` set (files s') \<and> p \<notin> fst ` set (files s))"
proof (cases rule: DownloadAuthUrl_cases [of dest_dir s env url])
  case (fallback dest s1)
  let ?s3 = "logger_info ''Authentication token not found. Attempting unauthenticated download.''
     (logger_info (''Downloading url from '' @ url @ '' to '' @ dest @ '' using authentication token.'') s1
        \<lparr>queries := queries s @ [query_key token_metadata_key False False]\<rparr>)"
  note n = NamedTemporaryFile_effect [OF fallback(1)]
  from DownloadUrl_returns [of env url dest_dir ?s3] obtain r s' where
    d: "DownloadUrl env url dest_dir ?s3 = (Inr r, s')"
    and w: "r = None \<longrightarrow> (\<exists>e. last (logged s') = warning (''Could not download '' @ url @ ''. '' @ str e @ ''.'') \<or>
                         last (logged s') = warning (''Exception downloading '' @ url @ ''. '' @ str e @ ''.''))"
    and p: "\<forall>p. r = Some p \<longrightarrow> p \<in> fst ` set (files s') \<and> p \<notin> fst ` set (files ?s3)"
    by blast
  have "fst ` set (files s) \<subseteq> fst ` set (files ?s3)"
    using n(4) by (auto simp: logger_info_def dom_update)
  with p have "\<forall>p. r = Some p \<longrightarrow> p \<in> fst ` set (files s') \<and> p \<notin> fst ` set (files s)"
    by blast
  with d w fallback(4) show ?thesis by simp
next
  case (failed dest s1 s3 e s4)
  then show ?thesis by (auto simp: logger_warning_def)
next
  case (fetched dest s1 s3 content s4)
  note n = NamedTemporaryFile_effect [OF fetched(1)]
  from n(2) fetched(4) show ?thesis by (simp add: write_file_def dom_update)
qed

lemma DownloadAuthUrl_all_fail:
  assumes "\<forall>calls u. \<exists>e. on_urlretrieve env calls u = Inl e"
    and "\<forall>calls r. \<exists>e. on_urlopen env calls r = Inl e"
  shows "fst (DownloadAuthUrl env url dest_dir s) = Inr None"
proof (cases rule: DownloadAuthUrl_cases [of dest_dir s env url])
  case (fallback dest s1)
  with DownloadUrl_all_fail [OF assms(1)] show ?thesis by simp
next
  case (failed dest s1 s3 e s4)
  then show ?thesis by simp
next
  case (fetched dest s1 s3 content s4)
  with UrlOpenWithRetry_all_fail [OF assms(2), of "auth_request url (token s3)" s3]
  show ?thesis by simp
qed

section \<open>The download functions: the exceptions caught and the exceptions raised\<close>

text \<open>Where nothing of the file system raises, the functions with the exceptions are
  the functions above.\<close>

lemma DownloadUrl_io_accepting:
  assumes "tempfile_raises fl dest_dir = None"
  shows "DownloadUrl_io fl env url dest_dir s = DownloadUrl env url dest_dir s"
  using assms
  by (cases "NamedTemporaryFile dest_dir s")
     (simp add: DownloadUrl_io_def DownloadUrl_def NamedTemporaryFile_io_def)

lemma DownloadAuthUrl_io_accepting:
  assumes "tempfile_raises fl dest_dir = None" and "Request_raises fl url = None"
    and "\<forall>path content. write_raises fl path content = None"
  shows "DownloadAuthUrl_io fl env url dest_dir s = DownloadAuthUrl env url dest_dir s"
proof -
  obtain dest s1 where n: "NamedTemporaryFile dest_dir s = (dest, s1)"
    by (cases "NamedTemporaryFile dest_dir s")
  have d: "DownloadUrl_io fl env url dest_dir x = DownloadUrl env url dest_dir x" for x
    using DownloadUrl_io_accepting [OF assms(1)] .
  show ?thesis
    unfolding DownloadAuthUrl_io_def DownloadAuthUrl_def NamedTemporaryFile_io_def
    by (simp add: assms n d cong: prod.case_cong sum.case_cong if_cong)
qed

lemma downloads_io_tempfile_raises:
  assumes "tempfile_raises fl dest_dir = Some e"
  shows "DownloadUrl_io fl env url dest_dir s = (Inl e, s)"
    and "DownloadAuthUrl_io fl env url dest_dir s = (Inl e, s)"
  using assms
  by (simp_all add: DownloadUrl_io_def DownloadAuthUrl_io_def NamedTemporaryFile_io_def)

lemma DownloadUrl_io_outcome:
  assumes "NamedTemporaryFile dest_dir s = (dest, s1)" and "tempfile_raises fl dest_dir = None"
  shows "case UrlRetrieveWithRetry env url dest
                (logger_info (''Downloading url from '' @ url @ '' to '' @ dest @ ''.'') s1) of
           (Inl e, s3) \<Rightarrow>
             DownloadUrl_io fl env url dest_dir s =
               (Inr None,
                logger_warning ((if retryable e then ''Could not download ''
                                 else ''Exception downloading '') @ url @ ''. '' @ str e @ ''.'') s3)
         | (Inr u, s3) \<Rightarrow> DownloadUrl_io fl env url dest_dir s = (Inr (Some dest), s3)"
  using assms
  by (simp add: DownloadUrl_io_def NamedTemporaryFile_io_def split: prod.splits sum.splits)

lemma DownloadAuthUrl_io_fallback:
  assumes "NamedTemporaryFile dest_dir s = (dest, s1)" and "tempfile_raises fl dest_dir = None"
    and "\<not> truthy (token s)"
    and "\<not> truthy (on_GetMetadata_key env (queries s) token_metadata_key)"
  shows "DownloadAuthUrl_io fl env url dest_dir s =
         DownloadUrl_io fl env url dest_dir
           (logger_info ''Authentication token not found. Attempting unauthenticated download.''
              ((logger_info (''Downloading url from '' @ url @ '' to '' @ dest @
                              '' using authentication token.'') s1)
               \<lparr>queries := queries s @ [query_key token_metadata_key False False]\<rparr>))"
  using assms NamedTemporaryFile_fields [OF assms(1)]
  by (simp add: DownloadAuthUrl_io_def NamedTemporaryFile_io_def GetMetadata_key_def
        logger_info_def)

lemma DownloadAuthUrl_io_fetch:
  assumes n: "NamedTemporaryFile dest_dir s = (dest, s1)" and t: "tempfile_raises fl dest_dir = None"
    and s3: "truthy (token s) \<and>
         s3 = logger_info (''Downloading url from '' @ url @ '' to '' @ dest @
                            '' using authentication token.'') s1 \<or>
       \<not> truthy (token s) \<and> (\<exists>response.
          on_GetMetadata_key env (queries s) token_metadata_key = Some response \<and> response \<noteq> [] \<and>
          s3 = (logger_info (''Downloading url from '' @ url @ '' to '' @ dest @
                              '' using authentication token.'') s1)
               \<lparr>queries := queries s @ [query_key token_metadata_key False False],
                token := Some (get_or_empty response ''token_type'' @ '' '' @
                               get_or_empty response ''access_token'')\<rparr>)"
  shows "(\<forall>e. Request_raises fl url = Some e \<longrightarrow>
            DownloadAuthUrl_io fl env url dest_dir s =
              (Inr None, logger_warning (''Could not download '' @ url @ ''. '' @ str e @ ''.'') s3)) \<and>
         (Request_raises fl url = None \<longrightarrow>
            (case UrlOpenWithRetry env (auth_request url (token s3)) s3 of
               (Inl e, s4) \<Rightarrow>
                 DownloadAuthUrl_io fl env url dest_dir s =
                   (Inr None, logger_warning (''Could not download '' @ url @ ''. '' @ str e @ ''.'') s4)
             | (Inr (Inl e), s4) \<Rightarrow>
                 DownloadAuthUrl_io fl env url dest_dir s =
                   (Inr None, logger_warning (''Could not download '' @ url @ ''. '' @ str e @ ''.'') s4)
             | (Inr (Inr content), s4) \<Rightarrow>
                 (case write_raises fl dest content of
                    Some e \<Rightarrow> DownloadAuthUrl_io fl env url dest_dir s = (Inl e, s4)
                  | None \<Rightarrow>
                      DownloadAuthUrl_io fl env url dest_dir s =
                        (Inr (Some dest), write_file dest content s4))))"
proof -
  note f = NamedTemporaryFile_fields [OF n]
  have req: "add_unredirected_header ''Authorization'' tok
      (add_unredirected_header ''Metadata-Flavor'' (Some ''Google'') (Request url)) = auth_request url tok" for tok
    by (simp add: add_unredirected_header_def Request_def auth_request_def)
  from s3 have unf: "DownloadAuthUrl_io fl env url dest_dir s =
    (case Request_raises fl url of
       Some e \<Rightarrow>
         (Inr None, logger_warning (''Could not download '' @ url @ ''. '' @ str e @ ''.'') s3)
     | None \<Rightarrow>
         (case UrlOpenWithRetry env (auth_request url (token s3)) s3 of
            (Inl e, s4) \<Rightarrow>
              (Inr None, logger_warning (''Could not download '' @ url @ ''. '' @ str e @ ''.'') s4)
          | (Inr (Inl e), s4) \<Rightarrow>
              (Inr None, logger_warning (''Could not download '' @ url @ ''. '' @ str e @ ''.'') s4)
          | (Inr (Inr content), s4) \<Rightarrow>
              (case write_raises fl dest content of
                 Some e \<Rightarrow> (Inl e, s4)
               | None \<Rightarrow> (Inr (Some dest), write_file dest content s4))))"
  proof
    assume "truthy (token s) \<and>
         s3 = logger_info (''Downloading url from '' @ url @ '' to '' @ dest @
                            '' using authentication token.'') s1"
    with n t f show ?thesis
      by (simp add: DownloadAuthUrl_io_def NamedTemporaryFile_io_def req logger_info_def Let_def
            cong: option.case_cong)
  next
    assume "\<not> truthy (token s) \<and> (\<exists>response.
          on_GetMetadata_key env (queries s) token_metadata_key = Some response \<and> response \<noteq> [] \<and>
          s3 = (logger_info (''Downloading url from '' @ url @ '' to '' @ dest @
                              '' using authentication token.'') s1)
               \<lparr>queries := queries s @ [query_key token_metadata_key False False],
                token := Some (get_or_empty response ''token_type'' @ '' '' @
                               get_or_empty response ''access_token'')\<rparr>)"
    then obtain response where nt: "\<not> truthy (token s)"
      and r: "on_GetMetadata_key env (queries s) token_metadata_key = Some response" "response \<noteq> []"
      and e: "s3 = (logger_info (''Downloading url from '' @ url @ '' to '' @ dest @
                              '' using authentication token.'') s1)
               \<lparr>queries := queries s @ [query_key token_metadata_key False False],
                token := Some (get_or_empty response ''token_type'' @ '' '' @
                               get_or_empty response ''access_token'')\<rparr>"
      by blast
    with n t f show ?thesis
      by (simp add: DownloadAuthUrl_io_def NamedTemporaryFile_io_def req logger_info_def
            GetMetadata_key_def Let_def cong: option.case_cong)
  qed
  show ?thesis
    unfolding unf by (simp split: option.splits prod.splits sum.splits)
qed

lemma DownloadUrl_io_exhausted:
  assumes n: "NamedTemporaryFile dest_dir s = (dest, s1)" and "tempfile_raises fl dest_dir = None"
    and "retryable e1" "retryable e2" "retryable e3"
    and "on_urlretrieve env (net s) url = Inl e1"
    and "on_urlretrieve env (net s @ [urlretrieve_call url dest]) url = Inl e2"
    and "on_urlretrieve env (net s @ [urlretrieve_call url dest, urlretrieve_call url dest]) url
           = Inl e3"
  shows "DownloadUrl_io fl env url dest_dir s =
     (Inr None,
      s1\<lparr>logged := logged s @
            [info (''Downloading url from '' @ url @ '' to '' @ dest @ ''.''),
             warning (''Could not download '' @ url @ ''. '' @ str e3 @ ''.'')],
         net := net s @ [urlretrieve_call url dest, urlretrieve_call url dest,
                         urlretrieve_call url dest],
         slept := slept s + 15\<rparr>)"
  using assms NamedTemporaryFile_fields [OF n]
  by (simp add: DownloadUrl_io_def NamedTemporaryFile_io_def UrlRetrieveWithRetry_def
        RetryOnUnavailable_def urlretrieve_def logger_info_def logger_warning_def time_sleep_def)

lemma DownloadUrl_io_fetched:
  assumes n: "NamedTemporaryFile dest_dir s = (dest, s1)" and "tempfile_raises fl dest_dir = None"
    and "on_urlretrieve env (net s) url = Inr content"
  shows "DownloadUrl_io fl env url dest_dir s =
     (Inr (Some dest),
      s1\<lparr>logged := logged s @
            [info (''Downloading url from '' @ url @ '' to '' @ dest @ ''.'')],
         net := net s @ [urlretrieve_call url dest],
         files := AList.update dest content (files s1)\<rparr>)"
  using assms NamedTemporaryFile_fields [OF n]
  by (simp add: DownloadUrl_io_def NamedTemporaryFile_io_def UrlRetrieveWithRetry_def
        RetryOnUnavailable_def urlretrieve_def logger_info_def write_file_def)

lemma DownloadAuthUrl_io_exhausted:
  assumes n: "NamedTemporaryFile dest_dir s = (dest, s1)" and "tempfile_raises fl dest_dir = None"
    and "truthy (token s)" and "Request_raises fl url = None"
    and "retryable e1" "retryable e2" "retryable e3"
    and "on_urlopen env (net s) (auth_request url (token s)) = Inl e1"
    and "on_urlopen env (net s @ [urlopen_call (auth_request url (token s))])
           (auth_request url (token s)) = Inl e2"
    and "on_urlopen env (net s @ [urlopen_call (auth_request url (token s)),
                                  urlopen_call (auth_request url (token s))])
           (auth_request url (token s)) = Inl e3"
  shows "DownloadAuthUrl_io fl env url dest_dir s =
     (Inr None,
      s1\<lparr>logged := logged s @
            [info (''Downloading url from '' @ url @ '' to '' @ dest @
                   '' using authentication token.''),
             warning (''Could not download '' @ url @ ''. '' @ str e3 @ ''.'')],
         net := net s @ [urlopen_call (auth_request url (token s)),
                         urlopen_call (auth_request url (token s)),
                         urlopen_call (auth_request url (token s))],
         slept := slept s + 15\<rparr>)"
proof -
  note f = NamedTemporaryFile_fields [OF n]
  let ?s3 = "logger_info (''Downloading url from '' @ url @ '' to '' @ dest @
                            '' using authentication token.'') s1"
  have tok: "token ?s3 = token s" and net: "net ?s3 = net s"
    using f by (simp_all add: logger_info_def)
  have "UrlOpenWithRetry env (auth_request url (token ?s3)) ?s3 =
     (Inl e3, ?s3\<lparr>net := net s @ [urlopen_call (auth_request url (token s)),
                         urlopen_call (auth_request url (token s)),
                         urlopen_call (auth_request url (token s))],
                  slept := slept s + 15\<rparr>)"
    using assms(5-10) f
    by (simp add: tok UrlOpenWithRetry_def RetryOnUnavailable_def urlopen_def time_sleep_def
          logger_info_def)
  with DownloadAuthUrl_io_fetch [OF n assms(2), of ?s3 url env] assms(3,4) f
  show ?thesis by (simp add: logger_info_def logger_warning_def)
qed

lemma DownloadAuthUrl_io_fetched:
  assumes n: "NamedTemporaryFile dest_dir s = (dest, s1)" and "tempfile_raises fl dest_dir = None"
    and "truthy (token s)" and "Request_raises fl url = None"
    and "on_urlopen env (net s) (auth_request url (token s)) = Inr (Inr content)"
    and "write_raises fl dest content = None"
  shows "DownloadAuthUrl_io fl env url dest_dir s =
     (Inr (Some dest),
      s1\<lparr>logged := logged s @
            [info (''Downloading url from '' @ url @ '' to '' @ dest @
                   '' using authentication token.'')],
         net := net s @ [urlopen_call (auth_request url (token s))],
         files := AList.update dest content (files s1)\<rparr>)"
proof -
  note f = NamedTemporaryFile_fields [OF n]
  let ?s3 = "logger_info (''Downloading url from '' @ url @ '' to '' @ dest @
                            '' using authentication token.'') s1"
  have tok: "token ?s3 = token s" and net: "net ?s3 = net s"
    using f by (simp_all add: logger_info_def)
  have "UrlOpenWithRetry env (auth_request url (token ?s3)) ?s3 =
     (Inr (Inr content), ?s3\<lparr>net := net s @ [urlopen_call (auth_request url (token s))]\<rparr>)"
    using assms(5) f
    by (simp add: tok UrlOpenWithRetry_def RetryOnUnavailable_def urlopen_def logger_info_def)
  with DownloadAuthUrl_io_fetch [OF n assms(2), of ?s3 url env] assms(3,4,6) f
  show ?thesis by (simp add: logger_info_def write_file_def)
qed

lemma DownloadUrl_io_unexpected:
  assumes n: "NamedTemporaryFile dest_dir s = (dest, s1)" and "tempfile_raises fl dest_dir = None"
    and "\<not> retryable e" and "on_urlretrieve env (net s) url = Inl e"
  shows "DownloadUrl_io fl env url dest_dir s =
     (Inr None,
      s1\<lparr>logged := logged s @
            [info (''Downloading url from '' @ url @ '' to '' @ dest @ ''.''),
             warning (''Exception downloading '' @ url @ ''. '' @ str e @ ''.'')],
         net := net s @ [urlretrieve_call url dest]\<rparr>)"
  using assms NamedTemporaryFile_fields [OF n]
  by (simp add: DownloadUrl_io_def NamedTemporaryFile_io_def UrlRetrieveWithRetry_def
        RetryOnUnavailable_def urlretrieve_def logger_info_def logger_warning_def)

lemma DownloadAuthUrl_io_unexpected:
  assumes n: "NamedTemporaryFile dest_dir s = (dest, s1)" and "tempfile_raises fl dest_dir = None"
    and "truthy (token s)" and "Request_raises fl url = None"
    and "on_urlopen env (net s) (auth_request url (token s)) = Inl e \<and> \<not> retryable e \<or>
         on_urlopen env (net s) (auth_request url (token s)) = Inr (Inl e)"
  shows "DownloadAuthUrl_io fl env url dest_dir s =
     (Inr None,
      s1\<lparr>logged := logged s @
            [info (''Downloading url from '' @ url @ '' to '' @ dest @
                   '' using authentication token.''),
             warning (''Could not download '' @ url @ ''. '' @ str e @ ''.'')],
         net := net s @ [urlopen_call (auth_request url (token s))]\<rparr>)"
proof -
  note f = NamedTemporaryFile_fields [OF n]
  let ?s3 = "logger_info (''Downloading url from '' @ url @ '' to '' @ dest @
                            '' using authentication token.'') s1"
  have tok: "token ?s3 = token s" and net: "net ?s3 = net s"
    using f by (simp_all add: logger_info_def)
  from assms(5) have
    "UrlOpenWithRetry env (auth_request url (token ?s3)) ?s3 =
       (Inl e, ?s3\<lparr>net := net s @ [urlopen_call (auth_request url (token s))]\<rparr>) \<or>
     UrlOpenWithRetry env (auth_request url (token ?s3)) ?s3 =
       (Inr (Inl e), ?s3\<lparr>net := net s @ [urlopen_call (auth_request url (token s))]\<rparr>)"
    using f
    by (auto simp add: tok UrlOpenWithRetry_def RetryOnUnavailable_def urlopen_def logger_info_def)
  with DownloadAuthUrl_io_fetch [OF n assms(2), of ?s3 url env] assms(3,4) f
  show ?thesis by (auto simp add: logger_info_def logger_warning_def)
qed

text \<open>
  C6, with the exceptions that the two functions do not catch. Let \<open>(dest, s1)\<close> be the
  file that \<^verbatim>\<open>tempfile.NamedTemporaryFile\<close> makes in the destination directory and the
  state with that file.

  If creating the file raises, \<^verbatim>\<open>_DownloadUrl\<close> and \<^verbatim>\<open>_DownloadAuthUrl\<close> raise
  that exception to their caller, and nothing has changed.

  If the file is created, \<open>dest\<close> is a path that no file had, and:

  \<^verbatim>\<open>_DownloadUrl\<close> returns \<open>dest\<close> when the retried \<^verbatim>\<open>urlretrieve\<close> returns; when it
  raises, whatever the exception, \<^verbatim>\<open>_DownloadUrl\<close> returns \<^verbatim>\<open>None\<close> after logging
  the warning with the URL and the text of the exception.

  \<^verbatim>\<open>_DownloadAuthUrl\<close> without a token, neither kept nor given by the metadata server,
  is \<^verbatim>\<open>_DownloadUrl\<close> after two more log entries and the query. With a token, in the
  state \<open>s3\<close> in which the \<^verbatim>\<open>try\<close> block is entered: an exception of
  \<^verbatim>\<open>Request\<close>, of the retried \<^verbatim>\<open>urlopen\<close> or of reading and decoding the answer
  gives \<^verbatim>\<open>None\<close> and the warning; a text that arrives is written to \<open>dest\<close> and
  \<open>dest\<close> is returned, unless writing raises: that exception is raised to the caller.

  In terms of what the network answers from the calls made so far: three retryable
  exceptions in a row, after which the retry decorator gives up, make both functions
  return \<^verbatim>\<open>None\<close> after three calls and fifteen seconds, with the text of the third
  exception in the warning; another exception at the first call, or an answer that
  cannot be read, gives \<^verbatim>\<open>None\<close> after that one call; a text at the first call gives
  the path, and the file holds the text.
\<close>

theorem downloads_catch_fetch_exceptions:
  "case NamedTemporaryFile dest_dir s of (dest, s1) \<Rightarrow>
     (\<forall>e. tempfile_raises fl dest_dir = Some e \<longrightarrow>
        DownloadUrl_io fl env url dest_dir s = (Inl e, s) \<and>
        DownloadAuthUrl_io fl env url dest_dir s = (Inl e, s)) \<and>
     (tempfile_raises fl dest_dir = None \<longrightarrow>
        dest \<notin> fst ` set (files s) \<and>
        (case UrlRetrieveWithRetry env url dest
                (logger_info (''Downloading url from '' @ url @ '' to '' @ dest @ ''.'') s1) of
           (Inl e, s3) \<Rightarrow>
             DownloadUrl_io fl env url dest_dir s =
               (Inr None,
                logger_warning ((if retryable e then ''Could not download ''
                                 else ''Exception downloading '') @ url @ ''. '' @ str e @ ''.'') s3)
         | (Inr u, s3) \<Rightarrow> DownloadUrl_io fl env url dest_dir s = (Inr (Some dest), s3)) \<and>
        (\<not> truthy (token s) \<and>
         \<not> truthy (on_GetMetadata_key env (queries s) token_metadata_key) \<longrightarrow>
           DownloadAuthUrl_io fl env url dest_dir s =
             DownloadUrl_io fl env url dest_dir
               (logger_info ''Authentication token not found. Attempting unauthenticated download.''
                  ((logger_info (''Downloading url from '' @ url @ '' to '' @ dest @
                                  '' using authentication token.'') s1)
                   \<lparr>queries := queries s @ [query_key token_metadata_key False False]\<rparr>))) \<and>
        (\<forall>s3. (truthy (token s) \<and>
                s3 = logger_info (''Downloading url from '' @ url @ '' to '' @ dest @
                                   '' using authentication token.'') s1 \<or>
              \<not> truthy (token s) \<and> (\<exists>response.
                on_GetMetadata_key env (queries s) token_metadata_key = Some response \<and>
                response \<noteq> [] \<and>
                s3 = (logger_info (''Downloading url from '' @ url @ '' to '' @ dest @
                                    '' using authentication token.'') s1)
                     \<lparr>queries := queries s @ [query_key token_metadata_key False False],
                      token := Some (get_or_empty response ''token_type'' @ '' '' @
                                     get_or_empty response ''access_token'')\<rparr>)) \<longrightarrow>
           (\<forall>e. Request_raises fl url = Some e \<longrightarrow>
              DownloadAuthUrl_io fl env url dest_dir s =
                (Inr None,
                 logger_warning (''Could not download '' @ url @ ''. '' @ str e @ ''.'') s3)) \<and>
           (Request_raises fl url = None \<longrightarrow>
              (case UrlOpenWithRetry env (auth_request url (token s3)) s3 of
                 (Inl e, s4) \<Rightarrow>
                   DownloadAuthUrl_io fl env url dest_dir s =
                     (Inr None,
                      logger_warning (''Could not download '' @ url @ ''. '' @ str e @ ''.'') s4)
               | (Inr (Inl e), s4) \<Rightarrow>
                   DownloadAuthUrl_io fl env url dest_dir s =
                     (Inr None,
                      logger_warning (''Could not download '' @ url @ ''. '' @ str e @ ''.'') s4)
               | (Inr (Inr content), s4) \<Rightarrow>
                   (case write_raises fl dest content of
                      Some e \<Rightarrow> DownloadAuthUrl_io fl env url dest_dir s = (Inl e, s4)
                    | None \<Rightarrow>
                        DownloadAuthUrl_io fl env url dest_dir s =
                          (Inr (Some dest), write_file dest content s4))))) \<and>
        (\<forall>e1 e2 e3.
           retryable e1 \<and> retryable e2 \<and> retryable e3 \<and>
           on_urlretrieve env (net s) url = Inl e1 \<and>
           on_urlretrieve env (net s @ [urlretrieve_call url dest]) url = Inl e2 \<and>
           on_urlretrieve env (net s @ [urlretrieve_call url dest, urlretrieve_call url dest]) url
             = Inl e3 \<longrightarrow>
           DownloadUrl_io fl env url dest_dir s =
             (Inr None,
              s1\<lparr>logged := logged s @
                    [info (''Downloading url from '' @ url @ '' to '' @ dest @ ''.''),
                     warning (''Could not download '' @ url @ ''. '' @ str e3 @ ''.'')],
                 net := net s @ [urlretrieve_call url dest, urlretrieve_call url dest,
                                 urlretrieve_call url dest],
                 slept := slept s + 15\<rparr>)) \<and>
        (\<forall>e.
           \<not> retryable e \<and> on_urlretrieve env (net s) url = Inl e \<longrightarrow>
           DownloadUrl_io fl env url dest_dir s =
             (Inr None,
              s1\<lparr>logged := logged s @
                    [info (''Downloading url from '' @ url @ '' to '' @ dest @ ''.''),
                     warning (''Exception downloading '' @ url @ ''. '' @ str e @ ''.'')],
                 net := net s @ [urlretrieve_call url dest]\<rparr>)) \<and>
        (\<forall>content.
           on_urlretrieve env (net s) url = Inr content \<longrightarrow>
           DownloadUrl_io fl env url dest_dir s =
             (Inr (Some dest),
              s1\<lparr>logged := logged s @
                    [info (''Downloading url from '' @ url @ '' to '' @ dest @ ''.'')],
                 net := net s @ [urlretrieve_call url dest],
                 files := AList.update dest content (files s1)\<rparr>)) \<and>
        (\<forall>e1 e2 e3.
           truthy (token s) \<and> Request_raises fl url = None \<and>
           retryable e1 \<and> retryable e2 \<and> retryable e3 \<and>
           on_urlopen env (net s) (auth_request url (token s)) = Inl e1 \<and>
           on_urlopen env (net s @ [urlopen_call (auth_request url (token s))])
             (auth_request url (token s)) = Inl e2 \<and>
           on_urlopen env (net s @ [urlopen_call (auth_request url (token s)),
                                    urlopen_call (auth_request url (token s))])
             (auth_request url (token s)) = Inl e3 \<longrightarrow>
           DownloadAuthUrl_io fl env url dest_dir s =
             (Inr None,
              s1\<lparr>logged := logged s @
                    [info (''Downloading url from '' @ url @ '' to '' @ dest @
                           '' using authentication token.''),
                     warning (''Could not download '' @ url @ ''. '' @ str e3 @ ''.'')],
                 net := net s @ [urlopen_call (auth_request url (token s)),
                                 urlopen_call (auth_request url (token s)),
                                 urlopen_call (auth_request url (token s))],
                 slept := slept s + 15\<rparr>)) \<and>
        (\<forall>e.
           truthy (token s) \<and> Request_raises fl url = None \<and>
           (on_urlopen env (net s) (auth_request url (token s)) = Inl e \<and> \<not> retryable e \<or>
            on_urlopen env (net s) (auth_request url (token s)) = Inr (Inl e)) \<longrightarrow>
           DownloadAuthUrl_io fl env url dest_dir s =
             (Inr None,
              s1\<lparr>logged := logged s @
                    [info (''Downloading url from '' @ url @ '' to '' @ dest @
                           '' using authentication token.''),
                     warning (''Could not download '' @ url @ ''. '' @ str e @ ''.'')],
                 net := net s @ [urlopen_call (auth_request url (token s))]\<rparr>)) \<and>
        (\<forall>content.
           truthy (token s) \<and> Request_raises fl url = None \<and>
           on_urlopen env (net s) (auth_request url (token s)) = Inr (Inr content) \<and>
           write_raises fl dest content = None \<longrightarrow>
           DownloadAuthUrl_io fl env url dest_dir s =
             (Inr (Some dest),
              s1\<lparr>logged := logged s @
                    [info (''Downloading url from '' @ url @ '' to '' @ dest @
                           '' using authentication token.'')],
                 net := net s @ [urlopen_call (auth_request url (token s))],
                 files := AList.update dest content (files s1)\<rparr>)))"
proof -
  obtain dest s1 where n: "NamedTemporaryFile dest_dir s = (dest, s1)"
    by (cases "NamedTemporaryFile dest_dir s")
  have raised: "\<forall>e. tempfile_raises fl dest_dir = Some e \<longrightarrow>
        DownloadUrl_io fl env url dest_dir s = (Inl e, s) \<and>
        DownloadAuthUrl_io fl env url dest_dir s = (Inl e, s)"
    using downloads_io_tempfile_raises by blast
  have created: ?thesis if t: "tempfile_raises fl dest_dir = None"
  proof -
    note new = NamedTemporaryFile_effect(2) [OF n]
    note plain = DownloadUrl_io_outcome [OF n t, of env url]
    have fallback: "\<not> truthy (token s) \<and>
         \<not> truthy (on_GetMetadata_key env (queries s) token_metadata_key) \<longrightarrow>
           DownloadAuthUrl_io fl env url dest_dir s =
             DownloadUrl_io fl env url dest_dir
               (logger_info ''Authentication token not found. Attempting unauthenticated download.''
                  ((logger_info (''Downloading url from '' @ url @ '' to '' @ dest @
                                  '' using authentication token.'') s1)
                   \<lparr>queries := queries s @ [query_key token_metadata_key False False]\<rparr>))"
      using DownloadAuthUrl_io_fallback [OF n t] by blast
    note fetch = DownloadAuthUrl_io_fetch [OF n t, of _ url env]
    note ex1 = DownloadUrl_io_exhausted [OF n t, of _ _ _ env url]
    note un1 = DownloadUrl_io_unexpected [OF n t, of _ env url]
    note ok1 = DownloadUrl_io_fetched [OF n t, of env url]
    note ex2 = DownloadAuthUrl_io_exhausted [OF n t, of url _ _ _ env]
    note un2 = DownloadAuthUrl_io_unexpected [OF n t, of url env]
    note ok2 = DownloadAuthUrl_io_fetched [OF n t, of url env]
    show ?thesis
      unfolding n prod.case
      apply (intro conjI)
      apply (rule raised)
      apply (intro impI conjI)
      apply (rule new)
      apply (rule plain)
      apply (rule fallback [rule_format], simp)
      apply (intro allI impI, erule fetch)
      apply (intro allI impI, elim conjE, erule (5) ex1)
      apply (intro allI impI, elim conjE, erule (1) un1)
      apply (intro allI impI, erule ok1)
      apply (intro allI impI, elim conjE, erule (7) ex2)
      apply (intro allI impI, elim conjE, erule (2) un2)
      apply (intro allI impI, elim conjE, erule (3) ok2)
      done
  qed
  show ?thesis
  proof (cases "tempfile_raises fl dest_dir")
    case None
    then show ?thesis by (rule created)
  next
    case (Some e)
    with raised show ?thesis unfolding n prod.case by simp
  qed
qed

text \<open>In the directory \<^verbatim>\<open>/run\<close> of a file system that accepts everything: on the
  network where every call raises \<open>URLError\<close> both functions return \<^verbatim>\<open>None\<close> after
  three calls and leave the empty file; on the network that serves the script both
  return \<^verbatim>\<open>/run/tmp0\<close>, which holds the script.\<close>

theorem downloads_catch_fetch_exceptions_witness:
  "tempfile_raises accepting ''/run'' = None \<and>
   NamedTemporaryFile ''/run'' fresh_retriever =
     (''/run/tmp0'', fresh_retriever\<lparr>files := [(''/run/tmp0'', [])]\<rparr>) \<and>
   DownloadUrl_io accepting unreachable ''https://example.com/x'' ''/run'' fresh_retriever =
     (Inr None,
      fresh_retriever
        \<lparr>files := [(''/run/tmp0'', [])],
         logged := [info ''Downloading url from https://example.com/x to /run/tmp0.'',
                    warning ''Could not download https://example.com/x. unreachable.''],
         net := [urlretrieve_call ''https://example.com/x'' ''/run/tmp0'',
                 urlretrieve_call ''https://example.com/x'' ''/run/tmp0'',
                 urlretrieve_call ''https://example.com/x'' ''/run/tmp0''],
         slept := 15\<rparr>) \<and>
   DownloadUrl_io accepting serving ''https://example.com/x'' ''/run'' fresh_retriever =
     (Inr (Some ''/run/tmp0''),
      fresh_retriever
        \<lparr>files := [(''/run/tmp0'', ''echo hi'')],
         logged := [info ''Downloading url from https://example.com/x to /run/tmp0.''],
         net := [urlretrieve_call ''https://example.com/x'' ''/run/tmp0'']\<rparr>) \<and>
   DownloadAuthUrl_io accepting unreachable ''https://example.com/x'' ''/run''
       (fresh_retriever\<lparr>token := Some ''Bearer abc''\<rparr>) =
     (Inr None,
      fresh_retriever
        \<lparr>token := Some ''Bearer abc'',
         files := [(''/run/tmp0'', [])],
         logged := [info (''Downloading url from https://example.com/x to /run/tmp0'' @
                          '' using authentication token.''),
                    warning ''Could not download https://example.com/x. unreachable.''],
         net := [urlopen_call (auth_request ''https://example.com/x'' (Some ''Bearer abc'')),
                 urlopen_call (auth_request ''https://example.com/x'' (Some ''Bearer abc'')),
                 urlopen_call (auth_request ''https://example.com/x'' (Some ''Bearer abc''))],
         slept := 15\<rparr>) \<and>
   DownloadAuthUrl_io accepting serving ''https://example.com/x'' ''/run''
       (fresh_retriever\<lparr>token := Some ''Bearer abc''\<rparr>) =
     (Inr (Some ''/run/tmp0''),
      fresh_retriever
        \<lparr>token := Some ''Bearer abc'',
         files := [(''/run/tmp0'', ''echo hi'')],
         logged := [info (''Downloading url from https://example.com/x to /run/tmp0'' @
                          '' using authentication token.'')],
         net := [urlopen_call (auth_request ''https://example.com/x'' (Some ''Bearer abc''))]\<rparr>)"
  using downloads_catch_fetch_exceptions
          [where fl = accepting and env = unreachable and url = "''https://example.com/x''"
             and dest_dir = "''/run''" and s = fresh_retriever]
        downloads_catch_fetch_exceptions
          [where fl = accepting and env = serving and url = "''https://example.com/x''"
             and dest_dir = "''/run''" and s = fresh_retriever]
        downloads_catch_fetch_exceptions
          [where fl = accepting and env = unreachable and url = "''https://example.com/x''"
             and dest_dir = "''/run''" and s = "fresh_retriever\<lparr>token := Some ''Bearer abc''\<rparr>"]
        downloads_catch_fetch_exceptions
          [where fl = accepting and env = serving and url = "''https://example.com/x''"
             and dest_dir = "''/run''" and s = "fresh_retriever\<lparr>token := Some ''Bearer abc''\<rparr>"]
  by (simp add: accepting_def unreachable_def serving_def fresh_retriever_def auth_request_def
        prims)

text \<open>
  C6 as the specification has it, for every destination directory, does not hold: in a
  directory that does not exist both functions raise (lines 91 and 135 are outside the
  \<^verbatim>\<open>try\<close> blocks), and \<^verbatim>\<open>_DownloadAuthUrl\<close> raises as well when the text that
  it has fetched cannot be written (lines 120 and 121). In both cases the result is
  neither a path nor \<^verbatim>\<open>None\<close>.
\<close>

theorem downloads_raise_counterexample:
  "DownloadUrl_io no_such_directory serving ''https://example.com/x'' ''/nonexistent''
       fresh_retriever =
     (Inl (Exception ''[Errno 2] No such file or directory''), fresh_retriever) \<and>
   DownloadAuthUrl_io no_such_directory serving ''https://example.com/x'' ''/nonexistent''
       fresh_retriever =
     (Inl (Exception ''[Errno 2] No such file or directory''), fresh_retriever) \<and>
   fst (DownloadAuthUrl_io disk_full serving ''https://example.com/x'' ''/run'' fresh_retriever) =
     Inl (Exception ''[Errno 28] No space left on device'')"
  by (simp add: DownloadUrl_io_def DownloadAuthUrl_io_def NamedTemporaryFile_io_def
        no_such_directory_def disk_full_def serving_def fresh_retriever_def auth_request_def
        UrlOpenWithRetry_def RetryOnUnavailable_def prims)

section \<open>\<^verbatim>\<open>_DownloadAuthUrl\<close>: getting and keeping the token\<close>

lemma UrlRetrieveWithRetry_keeps:
  "token (snd (UrlRetrieveWithRetry env url dest s)) = token s \<and>
   queries (snd (UrlRetrieveWithRetry env url dest s)) = queries s \<and>
   script_type (snd (UrlRetrieveWithRetry env url dest s)) = script_type s"
  unfolding UrlRetrieveWithRetry_def RetryOnUnavailable_def
  by (rule Wrapper_invariant
        [where I = "\<lambda>x. token x = token s \<and> queries x = queries s \<and> script_type x = script_type s"])
     (auto simp: urlretrieve_def write_file_def time_sleep_def split: sum.splits)

lemma UrlOpenWithRetry_keeps:
  "token (snd (UrlOpenWithRetry env req s)) = token s \<and>
   queries (snd (UrlOpenWithRetry env req s)) = queries s \<and>
   script_type (snd (UrlOpenWithRetry env req s)) = script_type s"
  unfolding UrlOpenWithRetry_def RetryOnUnavailable_def
  by (rule Wrapper_invariant
        [where I = "\<lambda>x. token x = token s \<and> queries x = queries s \<and> script_type x = script_type s"])
     (auto simp: urlopen_def time_sleep_def)

lemma UrlOpenWithRetry_calls:
  "\<exists>calls. net (snd (UrlOpenWithRetry env req s)) = net s @ calls \<and>
      set calls \<subseteq> {urlopen_call req}"
  unfolding UrlOpenWithRetry_def RetryOnUnavailable_def
proof (rule Wrapper_invariant
        [where I = "\<lambda>x. \<exists>calls. net x = net s @ calls \<and> set calls \<subseteq> {urlopen_call req}"])
  fix x :: state
  assume "\<exists>calls. net x = net s @ calls \<and> set calls \<subseteq> {urlopen_call req}"
  then obtain calls where "net x = net s @ calls" "set calls \<subseteq> {urlopen_call req}" by blast
  then have "net (snd (urlopen env req x)) = net s @ (calls @ [urlopen_call req]) \<and>
      set (calls @ [urlopen_call req]) \<subseteq> {urlopen_call req}"
    by (simp add: urlopen_def)
  then show "\<exists>calls. net (snd (urlopen env req x)) = net s @ calls \<and> set calls \<subseteq> {urlopen_call req}"
    by blast
next
  fix n and x :: state
  assume "\<exists>calls. net x = net s @ calls \<and> set calls \<subseteq> {urlopen_call req}"
  then show "\<exists>calls. net (time_sleep n x) = net s @ calls \<and> set calls \<subseteq> {urlopen_call req}"
    by (simp add: time_sleep_def)
next
  show "\<exists>calls. net s = net s @ calls \<and> set calls \<subseteq> {urlopen_call req}" by simp
qed

lemma DownloadUrl_keeps:
  "token (snd (DownloadUrl env url dest_dir s)) = token s \<and>
   queries (snd (DownloadUrl env url dest_dir s)) = queries s \<and>
   script_type (snd (DownloadUrl env url dest_dir s)) = script_type s"
proof (cases rule: DownloadUrl_cases [of dest_dir s env url])
  case (failed dest s1 e s3)
  from UrlRetrieveWithRetry_keeps [of env url dest
      "logger_info (''Downloading url from '' @ url @ '' to '' @ dest @ ''.'') s1"]
    NamedTemporaryFile_fields [OF failed(1)] failed(2,3)
  show ?thesis by (simp add: logger_info_def logger_warning_def)
next
  case (fetched dest s1 s3)
  from UrlRetrieveWithRetry_keeps [of env url dest
      "logger_info (''Downloading url from '' @ url @ '' to '' @ dest @ ''.'') s1"]
    NamedTemporaryFile_fields [OF fetched(1)] fetched(2,3)
  show ?thesis by (simp add: logger_info_def)
qed

text \<open>
  C5. \<^verbatim>\<open>_DownloadAuthUrl\<close> on a retriever that has no token asks the metadata server
  once, for the key \<^verbatim>\<open>instance/service-accounts/default/token\<close>, not recursively and
  without retry. If the answer is \<^verbatim>\<open>None\<close> or empty, the function is
  \<^verbatim>\<open>_DownloadUrl\<close> on the same URL and directory (it returns and raises nothing), and
  no token is stored. If there is an answer, the token stored is its \<^verbatim>\<open>token_type\<close>,
  a space and its \<^verbatim>\<open>access_token\<close>, a missing field counting as the empty string;
  that token is not empty and is the \<^verbatim>\<open>Authorization\<close> header of every request
  sent. On a retriever that has a token the metadata server is not asked, the token stays,
  and every request sent carries it.
\<close>

theorem DownloadAuthUrl_token:
  "(\<not> truthy (token s) \<and> \<not> truthy (on_GetMetadata_key env (queries s) token_metadata_key) \<longrightarrow>
      (\<exists>s3. DownloadAuthUrl env url dest_dir s = DownloadUrl env url dest_dir s3 \<and>
            queries s3 = queries s @ [query_key token_metadata_key False False] \<and>
            token s3 = token s) \<and>
      queries (snd (DownloadAuthUrl env url dest_dir s)) =
        queries s @ [query_key token_metadata_key False False] \<and>
      (\<exists>r. fst (DownloadAuthUrl env url dest_dir s) = Inr r)) \<and>
   (\<not> truthy (token s) \<and>
    on_GetMetadata_key env (queries s) token_metadata_key = Some response \<and> response \<noteq> [] \<longrightarrow>
      token (snd (DownloadAuthUrl env url dest_dir s)) =
        Some (get_or_empty response ''token_type'' @ '' '' @ get_or_empty response ''access_token'') \<and>
      truthy (token (snd (DownloadAuthUrl env url dest_dir s))) \<and>
      queries (snd (DownloadAuthUrl env url dest_dir s)) =
        queries s @ [query_key token_metadata_key False False] \<and>
      (\<exists>calls. net (snd (DownloadAuthUrl env url dest_dir s)) = net s @ calls \<and>
         set calls \<subseteq> {urlopen_call (auth_request url
           (Some (get_or_empty response ''token_type'' @ '' '' @
                  get_or_empty response ''access_token'')))})) \<and>
   (truthy (token s) \<longrightarrow>
      token (snd (DownloadAuthUrl env url dest_dir s)) = token s \<and>
      queries (snd (DownloadAuthUrl env url dest_dir s)) = queries s \<and>
      (\<exists>calls. net (snd (DownloadAuthUrl env url dest_dir s)) = net s @ calls \<and>
         set calls \<subseteq> {urlopen_call (auth_request url (token s))}))"
proof (cases rule: DownloadAuthUrl_cases [of dest_dir s env url])
  case (fallback dest s1)
  let ?s3 = "logger_info ''Authentication token not found. Attempting unauthenticated download.''
     (logger_info (''Downloading url from '' @ url @ '' to '' @ dest @ '' using authentication token.'') s1
        \<lparr>queries := queries s @ [query_key token_metadata_key False False]\<rparr>)"
  note f = NamedTemporaryFile_fields [OF fallback(1)]
  have q: "queries ?s3 = queries s @ [query_key token_metadata_key False False]"
    and t: "token ?s3 = token s"
    using f by (simp_all add: logger_info_def)
  from DownloadUrl_returns [of env url dest_dir ?s3] fallback(4)
  have r: "\<exists>r. fst (DownloadAuthUrl env url dest_dir s) = Inr r" by auto
  from DownloadUrl_keeps [of env url dest_dir ?s3] fallback(4) q
  have "queries (snd (DownloadAuthUrl env url dest_dir s)) =
        queries s @ [query_key token_metadata_key False False]" by simp
  with fallback q t r show ?thesis by auto
next
  case (failed dest s1 s3 e s4)
  note f = NamedTemporaryFile_fields [OF failed(1)]
  note k = UrlOpenWithRetry_keeps [of env "auth_request url (token s3)" s3]
  from UrlOpenWithRetry_calls [of env "auth_request url (token s3)" s3] failed(4)
  obtain calls where c: "net s4 = net s3 @ calls"
    "set calls \<subseteq> {urlopen_call (auth_request url (token s3))}" by auto
  from failed(2) show ?thesis
  proof
    assume a: "truthy (token s) \<and> s3 = logger_info (''Downloading url from '' @ url @ '' to '' @ dest @
        '' using authentication token.'') s1"
    with f k c failed(4,5) show ?thesis
      by (auto simp: logger_info_def logger_warning_def)
  next
    assume "\<not> truthy (token s) \<and> (\<exists>response.
          on_GetMetadata_key env (queries s) token_metadata_key = Some response \<and> response \<noteq> [] \<and>
          s3 = (logger_info (''Downloading url from '' @ url @ '' to '' @ dest @
                  '' using authentication token.'') s1)
               \<lparr>queries := queries s @ [query_key token_metadata_key False False],
                token := Some (get_or_empty response ''token_type'' @ '' '' @
                               get_or_empty response ''access_token'')\<rparr>)"
    with f k c failed(4,5) show ?thesis
      by (auto simp: logger_info_def logger_warning_def)
  qed
next
  case (fetched dest s1 s3 content s4)
  note f = NamedTemporaryFile_fields [OF fetched(1)]
  note k = UrlOpenWithRetry_keeps [of env "auth_request url (token s3)" s3]
  from UrlOpenWithRetry_calls [of env "auth_request url (token s3)" s3] fetched(3)
  obtain calls where c: "net s4 = net s3 @ calls"
    "set calls \<subseteq> {urlopen_call (auth_request url (token s3))}" by auto
  from fetched(2) show ?thesis
  proof
    assume a: "truthy (token s) \<and> s3 = logger_info (''Downloading url from '' @ url @ '' to '' @ dest @
        '' using authentication token.'') s1"
    with f k c fetched(3,4) show ?thesis
      by (auto simp: logger_info_def write_file_def)
  next
    assume "\<not> truthy (token s) \<and> (\<exists>response.
          on_GetMetadata_key env (queries s) token_metadata_key = Some response \<and> response \<noteq> [] \<and>
          s3 = (logger_info (''Downloading url from '' @ url @ '' to '' @ dest @
                  '' using authentication token.'') s1)
               \<lparr>queries := queries s @ [query_key token_metadata_key False False],
                token := Some (get_or_empty response ''token_type'' @ '' '' @
                               get_or_empty response ''access_token'')\<rparr>)"
    with f k c fetched(3,4) show ?thesis
      by (auto simp: logger_info_def write_file_def)
  qed
qed

text \<open>With a metadata server that has a token, the first download stores
  \<^verbatim>\<open>Bearer abc\<close> after one query, and a second download makes no further query;
  with a metadata server that answers nothing the function returns \<^verbatim>\<open>None\<close> from
  \<^verbatim>\<open>_DownloadUrl\<close>.\<close>

theorem DownloadAuthUrl_token_witness:
  "\<not> truthy (token fresh_retriever) \<and>
   on_GetMetadata_key serving (queries fresh_retriever) token_metadata_key =
     Some [(''access_token'', ''abc''), (''expires_in'', ''3599''), (''token_type'', ''Bearer'')] \<and>
   token (snd (DownloadAuthUrl serving ''https://storage.googleapis.com/bk/o'' ''/run''
                 fresh_retriever)) = Some ''Bearer abc'' \<and>
   queries (snd (DownloadAuthUrl serving ''https://storage.googleapis.com/bk/o'' ''/run''
                   fresh_retriever)) = [query_key token_metadata_key False False] \<and>
   truthy (token (fresh_retriever\<lparr>token := Some ''Bearer abc''\<rparr>)) \<and>
   queries (snd (DownloadAuthUrl serving ''https://storage.googleapis.com/bk/p'' ''/run''
                   (fresh_retriever\<lparr>token := Some ''Bearer abc''\<rparr>))) = [] \<and>
   net (snd (DownloadAuthUrl serving ''https://storage.googleapis.com/bk/p'' ''/run''
               (fresh_retriever\<lparr>token := Some ''Bearer abc''\<rparr>))) =
     [urlopen_call (auth_request ''https://storage.googleapis.com/bk/p'' (Some ''Bearer abc''))] \<and>
   \<not> truthy (on_GetMetadata_key unreachable (queries fresh_retriever) token_metadata_key) \<and>
   fst (DownloadAuthUrl unreachable ''https://storage.googleapis.com/bk/o'' ''/run''
          fresh_retriever) = Inr None"
  using
    DownloadAuthUrl_token [where s = fresh_retriever and env = serving and dest_dir = "''/run''"
      and url = "''https://storage.googleapis.com/bk/o''" and response =
        "[(''access_token'', ''abc''), (''expires_in'', ''3599''), (''token_type'', ''Bearer'')]"]
    DownloadAuthUrl_token [where s = "fresh_retriever\<lparr>token := Some ''Bearer abc''\<rparr>"
      and env = serving and dest_dir = "''/run''"
      and url = "''https://storage.googleapis.com/bk/p''" and response = "[]"]
    DownloadAuthUrl_token [where s = fresh_retriever and env = unreachable and dest_dir = "''/run''"
      and url = "''https://storage.googleapis.com/bk/o''" and response = "[]"]
  by (simp add: DownloadAuthUrl_def DownloadUrl_def serving_def unreachable_def
        fresh_retriever_def auth_request_def prims)

section \<open>Files that exist are left as they are\<close>

lemma UrlRetrieveWithRetry_keeps_other:
  assumes "p \<noteq> dest"
  shows "map_of (files (snd (UrlRetrieveWithRetry env url dest s))) p = map_of (files s) p"
  unfolding UrlRetrieveWithRetry_def RetryOnUnavailable_def
  by (rule Wrapper_invariant [where I = "\<lambda>x. map_of (files x) p = map_of (files s) p"])
     (auto simp: urlretrieve_def write_file_def time_sleep_def update_conv' assms split: sum.splits)

lemma NamedTemporaryFile_keeps_other:
  assumes "NamedTemporaryFile dir s = (dest, s1)" and "p \<in> fst ` set (files s)"
  shows "p \<noteq> dest" and "map_of (files s1) p = map_of (files s) p"
    and "p \<in> fst ` set (files s1)"
proof -
  note n = NamedTemporaryFile_effect [OF assms(1)]
  from n(2) assms(2) show "p \<noteq> dest" by blast
  then show "map_of (files s1) p = map_of (files s) p" using n(4) by (simp add: update_conv')
  from assms(2) n(4) show "p \<in> fst ` set (files s1)" by (simp add: dom_update)
qed

lemma DownloadUrl_result:
  "fst (DownloadUrl env url dest_dir s) = Inr None \<or>
   fst (DownloadUrl env url dest_dir s) = Inr (Some (fst (NamedTemporaryFile dest_dir s)))"
  by (cases rule: DownloadUrl_cases [of dest_dir s env url]) simp_all

lemma DownloadUrl_frame:
  assumes "p \<in> fst ` set (files s)"
  shows "map_of (files (snd (DownloadUrl env url dest_dir s))) p = map_of (files s) p"
proof -
  obtain dest s1 where n: "NamedTemporaryFile dest_dir s = (dest, s1)"
    by (cases "NamedTemporaryFile dest_dir s")
  note o = NamedTemporaryFile_keeps_other [OF n assms]
  let ?s2 = "logger_info (''Downloading url from '' @ url @ '' to '' @ dest @ ''.'') s1"
  have "map_of (files (snd (UrlRetrieveWithRetry env url dest ?s2))) p = map_of (files s) p"
    using UrlRetrieveWithRetry_keeps_other [OF o(1), of env url ?s2] o(2)
    by (simp add: logger_info_def)
  with n show ?thesis
    by (cases rule: DownloadUrl_cases [of dest_dir s env url])
       (simp_all add: logger_warning_def)
qed

lemma DownloadUrl_grows:
  assumes "p \<in> fst ` set (files s)"
  shows "p \<in> fst ` set (files (snd (DownloadUrl env url dest_dir s)))"
  using DownloadUrl_frame [OF assms, of env url dest_dir] assms
  by (metis domIff dom_map_of_conv_image_fst)

lemma DownloadAuthUrl_frame:
  assumes "p \<in> fst ` set (files s)"
  shows "map_of (files (snd (DownloadAuthUrl env url dest_dir s))) p = map_of (files s) p"
proof (cases rule: DownloadAuthUrl_cases [of dest_dir s env url])
  case (fallback dest s1)
  note o = NamedTemporaryFile_keeps_other [OF fallback(1) assms]
  let ?s3 = "logger_info ''Authentication token not found. Attempting unauthenticated download.''
     (logger_info (''Downloading url from '' @ url @ '' to '' @ dest @ '' using authentication token.'') s1
        \<lparr>queries := queries s @ [query_key token_metadata_key False False]\<rparr>)"
  have f: "files ?s3 = files s1" by (simp add: logger_info_def)
  with o(3) have "p \<in> fst ` set (files ?s3)" by simp
  from DownloadUrl_frame [OF this, of env url dest_dir] f o(2) fallback(4)
  show ?thesis by simp
next
  case (failed dest s1 s3 e s4)
  note o = NamedTemporaryFile_keeps_other [OF failed(1) assms]
  from failed(2) have "files s3 = files s1" by (auto simp: logger_info_def)
  with UrlOpenWithRetry_keeps_files [of env "auth_request url (token s3)" s3] failed(4)
  have "files s4 = files s1" by simp
  with o(2) failed(5) show ?thesis by (simp add: logger_warning_def)
next
  case (fetched dest s1 s3 content s4)
  note o = NamedTemporaryFile_keeps_other [OF fetched(1) assms]
  from fetched(2) have "files s3 = files s1" by (auto simp: logger_info_def)
  with UrlOpenWithRetry_keeps_files [of env "auth_request url (token s3)" s3] fetched(3)
  have "files s4 = files s1" by simp
  with o(1,2) fetched(4) show ?thesis by (simp add: write_file_def update_conv')
qed

text \<open>
  C10. When \<^verbatim>\<open>_DownloadAuthUrl\<close> has no token and the metadata server gives none, the
  file it reserved on entry (\<open>first\<close>) is left behind: \<^verbatim>\<open>_DownloadUrl\<close> reserves
  another file (\<open>second\<close>, the name \<^verbatim>\<open>NamedTemporaryFile\<close> gives once \<open>first\<close>
  exists) in the same directory, both are new and differ, the function returns
  \<^verbatim>\<open>None\<close> or the path \<open>second\<close> and never \<open>first\<close>, and at the end \<open>first\<close> is
  still there, empty, next to \<open>second\<close>.
\<close>

theorem DownloadAuthUrl_fallback_second_file:
  assumes "\<not> truthy (token s)"
    and "\<not> truthy (on_GetMetadata_key env (queries s) token_metadata_key)"
  shows "case NamedTemporaryFile dest_dir s of (first, s1) \<Rightarrow>
           case NamedTemporaryFile dest_dir s1 of (second, s2) \<Rightarrow>
             first \<notin> fst ` set (files s) \<and> second \<notin> fst ` set (files s) \<and> second \<noteq> first \<and>
             (\<exists>j. first = tmp_candidate dest_dir j) \<and> (\<exists>k. second = tmp_candidate dest_dir k) \<and>
             (fst (DownloadAuthUrl env url dest_dir s) = Inr None \<or>
              fst (DownloadAuthUrl env url dest_dir s) = Inr (Some second)) \<and>
             fst (DownloadAuthUrl env url dest_dir s) \<noteq> Inr (Some first) \<and>
             map_of (files (snd (DownloadAuthUrl env url dest_dir s))) first = Some [] \<and>
             second \<in> fst ` set (files (snd (DownloadAuthUrl env url dest_dir s)))"
proof (cases rule: DownloadAuthUrl_cases [of dest_dir s env url])
  case (fallback first s1)
  obtain second s2 where n2: "NamedTemporaryFile dest_dir s1 = (second, s2)"
    by (cases "NamedTemporaryFile dest_dir s1")
  note e1 = NamedTemporaryFile_effect [OF fallback(1)]
  note e2 = NamedTemporaryFile_effect [OF n2]
  let ?s3 = "logger_info ''Authentication token not found. Attempting unauthenticated download.''
     (logger_info (''Downloading url from '' @ url @ '' to '' @ first @ '' using authentication token.'') s1
        \<lparr>queries := queries s @ [query_key token_metadata_key False False]\<rparr>)"
  have f: "files ?s3 = files s1" by (simp add: logger_info_def)
  have in1: "first \<in> fst ` set (files s1)" using e1(4) by (simp add: dom_update)
  have sub: "fst ` set (files s) \<subseteq> fst ` set (files s1)" using e1(4) by (auto simp: dom_update)
  from in1 e2(2) have ne: "second \<noteq> first" by blast
  from sub e2(2) have new2: "second \<notin> fst ` set (files s)" by blast
  have empty1: "map_of (files s1) first = Some []" using e1(4) by (simp add: update_conv')
  have name2: "fst (NamedTemporaryFile dest_dir ?s3) = second"
    using e2(1) f by (simp add: NamedTemporaryFile_def Let_def)
  from DownloadUrl_result [of env url dest_dir ?s3] name2 fallback(4)
  have res: "fst (DownloadAuthUrl env url dest_dir s) = Inr None \<or>
             fst (DownloadAuthUrl env url dest_dir s) = Inr (Some second)" by simp
  with ne have notfirst: "fst (DownloadAuthUrl env url dest_dir s) \<noteq> Inr (Some first)" by auto
  from in1 f have "first \<in> fst ` set (files ?s3)" by simp
  from DownloadUrl_frame [OF this, of env url dest_dir] f empty1 fallback(4)
  have kept: "map_of (files (snd (DownloadAuthUrl env url dest_dir s))) first = Some []" by simp
  have "second \<in> fst ` set (files (snd (NamedTemporaryFile dest_dir ?s3)))"
    using name2 by (simp add: NamedTemporaryFile_def Let_def write_file_def dom_update)
  have in2: "second \<in> fst ` set (files (snd (DownloadAuthUrl env url dest_dir s)))"
  proof (cases rule: DownloadUrl_cases [of dest_dir ?s3 env url])
    case (failed dest s1' e s3')
    from failed(1) name2 have d: "dest = second" by simp
    from NamedTemporaryFile_effect(4) [OF failed(1)] have "dest \<in> fst ` set (files s1')"
      by (simp add: dom_update)
    then have "dest \<in> fst ` set (files (logger_info (''Downloading url from '' @ url @ '' to '' @ dest @ ''.'') s1'))"
      by (simp add: logger_info_def)
    from UrlRetrieveWithRetry_keeps_file [OF this, of env url dest] failed(2)
    have "dest \<in> fst ` set (files s3')" by simp
    with failed(3) fallback(4) d show ?thesis by (simp add: logger_warning_def)
  next
    case (fetched dest s1' s3')
    from fetched(1) name2 have d: "dest = second" by simp
    from NamedTemporaryFile_effect(4) [OF fetched(1)] have "dest \<in> fst ` set (files s1')"
      by (simp add: dom_update)
    then have "dest \<in> fst ` set (files (logger_info (''Downloading url from '' @ url @ '' to '' @ dest @ ''.'') s1'))"
      by (simp add: logger_info_def)
    from UrlRetrieveWithRetry_keeps_file [OF this, of env url dest] fetched(2)
    have "dest \<in> fst ` set (files s3')" by simp
    with fetched(3) fallback(4) d show ?thesis by simp
  qed
  from e1(2,3) e2(3) new2 ne res notfirst kept in2 fallback(1) n2
  show ?thesis by simp
next
  case (failed dest s1 s3 e s4)
  with assms show ?thesis by auto
next
  case (fetched dest s1 s3 content s4)
  with assms show ?thesis by auto
qed

text \<open>Without a token and with a network that serves the script, the path returned is
  \<^verbatim>\<open>/run/tmp1\<close> and \<^verbatim>\<open>/run/tmp0\<close> stays empty.\<close>

theorem DownloadAuthUrl_fallback_second_file_witness:
  "\<not> truthy (token fresh_retriever) \<and>
   \<not> truthy (on_GetMetadata_key (serving\<lparr>on_GetMetadata_key := \<lambda>qs key. None\<rparr>)
                (queries fresh_retriever) token_metadata_key) \<and>
   NamedTemporaryFile ''/run'' fresh_retriever =
     (''/run/tmp0'', fresh_retriever\<lparr>files := [(''/run/tmp0'', [])]\<rparr>) \<and>
   fst (NamedTemporaryFile ''/run'' (fresh_retriever\<lparr>files := [(''/run/tmp0'', [])]\<rparr>)) =
     ''/run/tmp1'' \<and>
   fst (DownloadAuthUrl (serving\<lparr>on_GetMetadata_key := \<lambda>qs key. None\<rparr>)
          ''https://storage.googleapis.com/bk/o'' ''/run'' fresh_retriever) =
     Inr (Some ''/run/tmp1'') \<and>
   files (snd (DownloadAuthUrl (serving\<lparr>on_GetMetadata_key := \<lambda>qs key. None\<rparr>)
                 ''https://storage.googleapis.com/bk/o'' ''/run'' fresh_retriever)) =
     [(''/run/tmp0'', []), (''/run/tmp1'', ''echo hi'')]"
  using DownloadAuthUrl_fallback_second_file
    [where s = fresh_retriever and env = "serving\<lparr>on_GetMetadata_key := \<lambda>qs key. None\<rparr>"
       and dest_dir = "''/run''" and url = "''https://storage.googleapis.com/bk/o''"]
  by (simp add: DownloadAuthUrl_def DownloadUrl_def serving_def fresh_retriever_def prims)

section \<open>\<^verbatim>\<open>_GetAttributeScripts\<close>: the inline script and the script URL\<close>

lemma DownloadScript_is:
  "(\<exists>u. DownloadScript env url dest_dir s = DownloadAuthUrl env u dest_dir s) \<or>
   DownloadScript env url dest_dir s = DownloadUrl env url dest_dir s"
proof (cases "prefix ''gs://'' url")
  case True
  then have "DownloadScript env url dest_dir s =
    DownloadAuthUrl env (re_sub_start ''gs://'' ''https://storage.googleapis.com/'' url) dest_dir s"
    unfolding DownloadScript_def by (simp only: if_True)
  then show ?thesis by blast
next
  case no_gs: False
  show ?thesis
  proof (cases "re_match gs_regex_virtual url \<or> re_match gs_regex_path url")
    case True
    with no_gs have "DownloadScript env url dest_dir s = DownloadAuthUrl env url dest_dir s"
      unfolding DownloadScript_def by presburger
    then show ?thesis by blast
  next
    case False
    with no_gs have "DownloadScript env url dest_dir s = DownloadUrl env url dest_dir s"
      unfolding DownloadScript_def by presburger
    then show ?thesis by blast
  qed
qed

lemma DownloadScript_returns: "\<exists>r s'. DownloadScript env url dest_dir s = (Inr r, s')"
proof -
  have a: "\<exists>r s'. DownloadAuthUrl env u dest_dir s = (Inr r, s')" for u
    using DownloadAuthUrl_returns [of env u dest_dir s] by blast
  have b: "\<exists>r s'. DownloadUrl env url dest_dir s = (Inr r, s')"
    using DownloadUrl_returns [of env url dest_dir s] by blast
  from DownloadScript_is [of env url dest_dir s] a b show ?thesis by metis
qed

lemma DownloadScript_frame:
  assumes "p \<in> fst ` set (files s)"
  shows "map_of (files (snd (DownloadScript env url dest_dir s))) p = map_of (files s) p"
  using DownloadScript_is [of env url dest_dir s]
    DownloadUrl_frame [OF assms, of env url dest_dir] DownloadAuthUrl_frame [OF assms, of env _ dest_dir]
  by metis

lemma truthy_iff: "truthy x \<longleftrightarrow> (\<exists>v. x = Some v \<and> v \<noteq> [])"
  by (cases x) auto

lemma script_keys_differ: "t @ ''-script'' \<noteq> t @ ''-script-url''"
  by simp

lemma GetAttributeScripts_cases:
  fixes env attribute_data dest_dir s
  defines "attrs \<equiv> (case attribute_data of None \<Rightarrow> [] | Some d \<Rightarrow> d)"
  defines "key \<equiv> script_type s @ ''-script''"
  defines "key_url \<equiv> script_type s @ ''-script-url''"
  obtains (neither)
      "\<not> truthy (map_of attrs key)" "\<not> truthy (map_of attrs key_url)"
      "GetAttributeScripts env attribute_data dest_dir s = (Inr [], s)"
  | (inline_only) v dest s1 where
      "map_of attrs key = Some v" "v \<noteq> []" "\<not> truthy (map_of attrs key_url)"
      "NamedTemporaryFile dest_dir (logger_info (''Found '' @ key @ '' in metadata.'') s) = (dest, s1)"
      "GetAttributeScripts env attribute_data dest_dir s =
         (Inr [(key, Some dest)], write_file dest (lstrip v) s1)"
  | (url_only) url r s2 where
      "\<not> truthy (map_of attrs key)" "map_of attrs key_url = Some url" "url \<noteq> []"
      "DownloadScript env url dest_dir (logger_info (''Found '' @ key_url @ '' in metadata.'') s)
         = (Inr r, s2)"
      "GetAttributeScripts env attribute_data dest_dir s =
         (Inr [(key_url, r)],
          if r = None then logger_warning ''Failed to download metadata script.'' s2 else s2)"
  | (both) v dest s1 url r s2 where
      "map_of attrs key = Some v" "v \<noteq> []" "map_of attrs key_url = Some url" "url \<noteq> []"
      "NamedTemporaryFile dest_dir (logger_info (''Found '' @ key @ '' in metadata.'') s) = (dest, s1)"
      "DownloadScript env url dest_dir
         (logger_info (''Found '' @ key_url @ '' in metadata.'') (write_file dest (lstrip v) s1))
         = (Inr r, s2)"
      "GetAttributeScripts env attribute_data dest_dir s =
         (Inr [(key, Some dest), (key_url, r)],
          if r = None then logger_warning ''Failed to download metadata script.'' s2 else s2)"
proof (cases "truthy (map_of attrs key)")
  case no_inline: False
  show thesis
  proof (cases "truthy (map_of attrs key_url)")
    case False
    with no_inline have "GetAttributeScripts env attribute_data dest_dir s = (Inr [], s)"
      by (simp add: GetAttributeScripts_def attrs_def key_def key_url_def)
    with no_inline False show thesis using neither by blast
  next
    case True
    then obtain url where u: "map_of attrs key_url = Some url" "url \<noteq> []"
      by (auto simp: truthy_iff)
    obtain r s2 where d: "DownloadScript env url dest_dir
        (logger_info (''Found '' @ key_url @ '' in metadata.'') s) = (Inr r, s2)"
      using DownloadScript_returns by blast
    with no_inline u have "GetAttributeScripts env attribute_data dest_dir s =
         (Inr [(key_url, r)],
          if r = None then logger_warning ''Failed to download metadata script.'' s2 else s2)"
      by (simp add: GetAttributeScripts_def attrs_def key_def key_url_def)
    with no_inline u d show thesis using url_only by blast
  qed
next
  case True
  then obtain v where v: "map_of attrs key = Some v" "v \<noteq> []"
    by (auto simp: truthy_iff)
  obtain dest s1 where n: "NamedTemporaryFile dest_dir
      (logger_info (''Found '' @ key @ '' in metadata.'') s) = (dest, s1)"
    by (cases "NamedTemporaryFile dest_dir (logger_info (''Found '' @ key @ '' in metadata.'') s)")
  have st: "script_type (write_file dest (lstrip v) s1) = script_type s"
    using NamedTemporaryFile_fields(5) [OF n] by (simp add: write_file_def logger_info_def)
  show thesis
  proof (cases "truthy (map_of attrs key_url)")
    case False
    with v n st have "GetAttributeScripts env attribute_data dest_dir s =
         (Inr [(key, Some dest)], write_file dest (lstrip v) s1)"
      by (simp add: GetAttributeScripts_def attrs_def key_def key_url_def)
    with v n False show thesis using inline_only by blast
  next
    case True
    then obtain url where u: "map_of attrs key_url = Some url" "url \<noteq> []"
      by (auto simp: truthy_iff)
    obtain r s2 where d: "DownloadScript env url dest_dir
        (logger_info (''Found '' @ key_url @ '' in metadata.'') (write_file dest (lstrip v) s1))
        = (Inr r, s2)"
      using DownloadScript_returns by blast
    with v n st u have "GetAttributeScripts env attribute_data dest_dir s =
         (Inr [(key, Some dest), (key_url, r)],
          if r = None then logger_warning ''Failed to download metadata script.'' s2 else s2)"
      by (simp add: GetAttributeScripts_def attrs_def key_def key_url_def)
    with v n u d show thesis using both by blast
  qed
qed

lemma lstrip_parts:
  "(\<exists>ws. v = ws @ lstrip v \<and> (\<forall>c \<in> set ws. isspace c)) \<and>
   (lstrip v \<noteq> [] \<longrightarrow> \<not> isspace (hd (lstrip v)))"
proof -
  have "v = takeWhile isspace v @ lstrip v" by (simp add: lstrip_def)
  moreover have "\<forall>c \<in> set (takeWhile isspace v). isspace c"
    by (auto dest: set_takeWhileD)
  moreover have "lstrip v \<noteq> [] \<longrightarrow> \<not> isspace (hd (lstrip v))"
    unfolding lstrip_def by (simp add: hd_dropWhile)
  ultimately show ?thesis by blast
qed

text \<open>
  C8. For every attributes mapping with a non-empty value \<open>v\<close> under
  \<^verbatim>\<open><type>-script\<close>, \<^verbatim>\<open>_GetAttributeScripts\<close> returns a mapping that has, under that
  key, the path of a temporary file of the destination directory that did not exist
  before, and at the end that file holds \<open>v\<close> without its leading white space: \<open>v\<close> is
  white space followed by what is written, and what is written does not begin with white
  space. When no script URL is declared as well, that key is the mapping's only entry.
\<close>

theorem GetAttributeScripts_inline:
  assumes "map_of attrs (script_type s @ ''-script'') = Some v" and "v \<noteq> []"
  shows "\<exists>m s' p. GetAttributeScripts env (Some attrs) dest_dir s = (Inr m, s') \<and>
           map_of m (script_type s @ ''-script'') = Some (Some p) \<and>
           p = fst (NamedTemporaryFile dest_dir s) \<and>
           p \<notin> fst ` set (files s) \<and> (\<exists>k. p = tmp_candidate dest_dir k) \<and>
           map_of (files s') p = Some (lstrip v) \<and>
           (\<exists>ws. v = ws @ lstrip v \<and> (\<forall>c \<in> set ws. isspace c)) \<and>
           (lstrip v \<noteq> [] \<longrightarrow> \<not> isspace (hd (lstrip v))) \<and>
           (\<not> truthy (map_of attrs (script_type s @ ''-script-url'')) \<longrightarrow>
              m = [(script_type s @ ''-script'', Some p)])"
proof (cases rule: GetAttributeScripts_cases [of "Some attrs" s env dest_dir])
  case neither
  with assms show ?thesis by simp
next
  case (url_only url r s2)
  with assms show ?thesis by simp
next
  case (inline_only v' dest s1)
  note e = NamedTemporaryFile_effect [OF inline_only(4)]
  from inline_only(1) assms(1) have v: "v' = v" by simp
  have name: "dest = fst (NamedTemporaryFile dest_dir s)"
    using e(1) by (simp add: NamedTemporaryFile_def Let_def logger_info_def)
  have new: "dest \<notin> fst ` set (files s)" using e(2) by (simp add: logger_info_def)
  have content: "map_of (files (write_file dest (lstrip v) s1)) dest = Some (lstrip v)"
    by (simp add: write_file_def update_conv')
  from inline_only(5) v name new e(3) content lstrip_parts [of v]
  show ?thesis by simp
next
  case (both v' dest s1 url r s2)
  note e = NamedTemporaryFile_effect [OF both(5)]
  from both(1) assms(1) have v: "v' = v" by simp
  have name: "dest = fst (NamedTemporaryFile dest_dir s)"
    using e(1) by (simp add: NamedTemporaryFile_def Let_def logger_info_def)
  have new: "dest \<notin> fst ` set (files s)" using e(2) by (simp add: logger_info_def)
  let ?s = "logger_info (''Found '' @ (script_type s @ ''-script-url'') @ '' in metadata.'')
              (write_file dest (lstrip v) s1)"
  have there: "dest \<in> fst ` set (files ?s)"
    by (simp add: write_file_def logger_info_def dom_update)
  have "map_of (files ?s) dest = Some (lstrip v)"
    by (simp add: write_file_def logger_info_def update_conv')
  with DownloadScript_frame [OF there, of env url dest_dir] both(6) v
  have "map_of (files s2) dest = Some (lstrip v)" by simp
  then have content: "map_of (files (if r = None
      then logger_warning ''Failed to download metadata script.'' s2 else s2)) dest = Some (lstrip v)"
    by (simp add: logger_warning_def)
  from both(3,4) have "truthy (map_of attrs (script_type s @ ''-script-url''))" by simp
  with both(7) name new e(3) content lstrip_parts [of v]
  show ?thesis by simp
qed

text \<open>The attributes \<^verbatim>\<open>{"startup-script": "  echo hi"}\<close>: one key, and the file holds
  \<^verbatim>\<open>echo hi\<close>.\<close>

theorem GetAttributeScripts_inline_witness:
  "map_of [(''startup-script'', ''  echo hi'')] (script_type fresh_retriever @ ''-script'') =
     Some ''  echo hi'' \<and>
   ''  echo hi'' \<noteq> [] \<and>
   GetAttributeScripts unreachable (Some [(''startup-script'', ''  echo hi'')]) ''/run''
     fresh_retriever =
     (Inr [(''startup-script'', Some ''/run/tmp0'')],
      fresh_retriever\<lparr>files := [(''/run/tmp0'', ''echo hi'')],
                       logged := [info ''Found startup-script in metadata.'']\<rparr>)"
  using GetAttributeScripts_inline [where attrs = "[(''startup-script'', ''  echo hi'')]"
      and s = fresh_retriever and v = "''  echo hi''" and env = unreachable and dest_dir = "''/run''"]
  by (simp add: GetAttributeScripts_def fresh_retriever_def lstrip_def isspace_def prims)

text \<open>
  C7. For every attributes mapping with a non-empty value \<open>url\<close> under
  \<^verbatim>\<open><type>-script-url\<close>, \<^verbatim>\<open>_GetAttributeScripts\<close> returns a mapping that has under
  that key what \<^verbatim>\<open>_DownloadScript\<close> returned for \<open>url\<close> (run in a state with the network
  calls, metadata queries and token of the start): when the download returned \<^verbatim>\<open>None\<close>,
  the key is in the mapping with the value \<^verbatim>\<open>None\<close>, and the warning is logged. In
  particular this is so when the download of \<open>url\<close> fails in every state. When the key is
  not declared, or declared empty, the mapping does not have it.
\<close>

theorem GetAttributeScripts_url:
  "(map_of attrs (script_type s @ ''-script-url'') = Some url \<and> url \<noteq> [] \<longrightarrow>
      (\<exists>m s' s1 r s2. GetAttributeScripts env (Some attrs) dest_dir s = (Inr m, s') \<and>
          DownloadScript env url dest_dir s1 = (Inr r, s2) \<and>
          net s1 = net s \<and> queries s1 = queries s \<and> token s1 = token s \<and>
          map_of m (script_type s @ ''-script-url'') = Some r \<and>
          (r = None \<longrightarrow> s' = logger_warning ''Failed to download metadata script.'' s2)) \<and>
      ((\<forall>s1. fst (DownloadScript env url dest_dir s1) = Inr None) \<longrightarrow>
          (\<exists>m s'. GetAttributeScripts env (Some attrs) dest_dir s = (Inr m, s') \<and>
             map_of m (script_type s @ ''-script-url'') = Some None))) \<and>
   (\<not> truthy (map_of attrs (script_type s @ ''-script-url'')) \<longrightarrow>
      (\<exists>m s'. GetAttributeScripts env (Some attrs) dest_dir s = (Inr m, s') \<and>
         map_of m (script_type s @ ''-script-url'') = None))"
proof (cases rule: GetAttributeScripts_cases [of "Some attrs" s env dest_dir])
  case neither
  then show ?thesis by (auto simp: truthy_iff)
next
  case (inline_only v dest s1)
  then show ?thesis by (auto simp: truthy_iff)
next
  case (url_only url' r s2)
  let ?s1 = "logger_info (''Found '' @ (script_type s @ ''-script-url'') @ '' in metadata.'') s"
  have "net ?s1 = net s \<and> queries ?s1 = queries s \<and> token ?s1 = token s"
    by (simp add: logger_info_def)
  with url_only(4,5) have main: "\<exists>m s' s1 r s2.
          GetAttributeScripts env (Some attrs) dest_dir s = (Inr m, s') \<and>
          DownloadScript env url' dest_dir s1 = (Inr r, s2) \<and>
          net s1 = net s \<and> queries s1 = queries s \<and> token s1 = token s \<and>
          map_of m (script_type s @ ''-script-url'') = Some r \<and>
          (r = None \<longrightarrow> s' = logger_warning ''Failed to download metadata script.'' s2)"
    by (intro exI [of _ "[(script_type s @ ''-script-url'', r)]"]
          exI [of _ "if r = None then logger_warning ''Failed to download metadata script.'' s2 else s2"]
          exI [of _ ?s1] exI [of _ r] exI [of _ s2]) simp
  have "(\<forall>s1. fst (DownloadScript env url' dest_dir s1) = Inr None) \<longrightarrow> r = None"
    using url_only(4) by (metis Inr_inject fst_conv)
  with url_only(2,3,5) main show ?thesis by auto
next
  case (both v dest s1 url' r s2)
  let ?s1 = "logger_info (''Found '' @ (script_type s @ ''-script-url'') @ '' in metadata.'')
               (write_file dest (lstrip v) s1)"
  have "net ?s1 = net s \<and> queries ?s1 = queries s \<and> token ?s1 = token s"
    using NamedTemporaryFile_fields [OF both(5)] by (simp add: logger_info_def write_file_def)
  with both(6,7) have main: "\<exists>m s' s1 r s2.
          GetAttributeScripts env (Some attrs) dest_dir s = (Inr m, s') \<and>
          DownloadScript env url' dest_dir s1 = (Inr r, s2) \<and>
          net s1 = net s \<and> queries s1 = queries s \<and> token s1 = token s \<and>
          map_of m (script_type s @ ''-script-url'') = Some r \<and>
          (r = None \<longrightarrow> s' = logger_warning ''Failed to download metadata script.'' s2)"
    by (intro exI [of _ "[(script_type s @ ''-script'', Some dest), (script_type s @ ''-script-url'', r)]"]
          exI [of _ "if r = None then logger_warning ''Failed to download metadata script.'' s2 else s2"]
          exI [of _ ?s1] exI [of _ r] exI [of _ s2]) simp
  have "(\<forall>s1. fst (DownloadScript env url' dest_dir s1) = Inr None) \<longrightarrow> r = None"
    using both(6) by (metis Inr_inject fst_conv)
  with both(3,4,7) main show ?thesis by auto
qed

text \<open>The attributes \<^verbatim>\<open>{"startup-script-url": "https://bad.invalid/x"}\<close> on the
  network where every fetch fails: the key is there, with \<^verbatim>\<open>None\<close>.\<close>

theorem GetAttributeScripts_url_witness:
  "map_of [(''startup-script-url'', ''https://bad.invalid/x'')]
     (script_type fresh_retriever @ ''-script-url'') = Some ''https://bad.invalid/x'' \<and>
   ''https://bad.invalid/x'' \<noteq> [] \<and>
   (\<forall>s1. fst (DownloadScript unreachable ''https://bad.invalid/x'' ''/run'' s1) = Inr None) \<and>
   fst (GetAttributeScripts unreachable (Some [(''startup-script-url'', ''https://bad.invalid/x'')])
          ''/run'' fresh_retriever) = Inr [(''startup-script-url'', None)] \<and>
   last (logged (snd (GetAttributeScripts unreachable
          (Some [(''startup-script-url'', ''https://bad.invalid/x'')]) ''/run'' fresh_retriever))) =
     warning ''Failed to download metadata script.'' \<and>
   \<not> truthy (map_of [(''startup-script'', ''  echo hi'')]
               (script_type fresh_retriever @ ''-script-url'')) \<and>
   map_of [(''startup-script'', Some ''/run/tmp0'')] ''startup-script-url'' = None"
proof -
  have down: "\<forall>calls u. \<exists>e. on_urlretrieve unreachable calls u = Inl e"
    by (simp add: unreachable_def)
  have "DownloadScript unreachable ''https://bad.invalid/x'' ''/run'' s1 =
        DownloadUrl unreachable ''https://bad.invalid/x'' ''/run'' s1" for s1
    by (simp add: DownloadScript_def rx)
  with DownloadUrl_all_fail [OF down]
  have fails: "\<forall>s1. fst (DownloadScript unreachable ''https://bad.invalid/x'' ''/run'' s1) = Inr None"
    by simp
  show ?thesis
    using fails
      GetAttributeScripts_url [where attrs = "[(''startup-script-url'', ''https://bad.invalid/x'')]"
        and s = fresh_retriever and url = "''https://bad.invalid/x''" and env = unreachable
        and dest_dir = "''/run''"]
      GetAttributeScripts_url [where attrs = "[(''startup-script'', ''  echo hi'')]"
        and s = fresh_retriever and url = "[]" and env = unreachable and dest_dir = "''/run''"]
    by (simp add: GetAttributeScripts_def DownloadScript_def rx DownloadUrl_def unreachable_def
          fresh_retriever_def prims)
qed

section \<open>\<^verbatim>\<open>GetScripts\<close>: instance scripts first, project scripts only otherwise\<close>

lemma GetAttributeScripts_returns:
  "\<exists>m s'. GetAttributeScripts env attribute_data dest_dir s = (Inr m, s')"
  by (cases rule: GetAttributeScripts_cases [of attribute_data s env dest_dir]) simp_all

lemma GetAttributeScripts_empty:
  assumes "GetAttributeScripts env attribute_data dest_dir s = (Inr [], s')"
  shows "s' = s"
  using assms
  by (cases rule: GetAttributeScripts_cases [of attribute_data s env dest_dir]) simp_all

lemma GetScripts_unfold:
  fixes env dest_dir s
  defines "md \<equiv> (case on_GetMetadata env (queries s) of None \<Rightarrow> [] | Some d \<Rightarrow> d)"
  defines "s1 \<equiv> s\<lparr>queries := queries s @ [query_all]\<rparr>"
  defines "s2 \<equiv> (case getitem2 md ''instance'' ''attributes'' of
      Some d \<Rightarrow> s1 | None \<Rightarrow> logger_warning ''Instance attributes were not found.'' s1)"
  defines "s3 \<equiv> (case getitem2 md ''project'' ''attributes'' of
      Some d \<Rightarrow> s2 | None \<Rightarrow> logger_warning ''Project attributes were not found.'' s2)"
  shows "GetScripts env dest_dir s =
    (case GetAttributeScripts env (getitem2 md ''instance'' ''attributes'') dest_dir s3 of
       (Inl e, s4) \<Rightarrow> (Inl e, s4)
     | (Inr instance_scripts, s4) \<Rightarrow>
         if instance_scripts \<noteq> [] then (Inr instance_scripts, s4)
         else GetAttributeScripts env (getitem2 md ''project'' ''attributes'') dest_dir s4)"
proof (cases "getitem2 md ''instance'' ''attributes''";
       cases "getitem2 md ''project'' ''attributes''")
qed (simp_all add: GetScripts_def GetMetadata_def s1_def s2_def s3_def flip: md_def
       cong: if_cong prod.case_cong sum.case_cong)

text \<open>
  C1. \<^verbatim>\<open>GetScripts\<close> asks the watcher once for the metadata tree and then computes the
  script mapping of the instance attributes (in a state \<open>s3\<close> that differs from the start
  by that query and by log entries). When that mapping has an entry, it is the result,
  and the final state is the one the instance computation left: nothing is computed for
  the project. Only when it is empty (the instance computation has then changed nothing)
  is the result the script mapping of the project attributes. The result is one of the
  two mappings, never a combination; in particular an instance mapping with an entry
  whose value is \<^verbatim>\<open>None\<close> is the result.
\<close>

theorem GetScripts_instance_first:
  fixes env dest_dir s
  defines "md \<equiv> (case on_GetMetadata env (queries s) of None \<Rightarrow> [] | Some d \<Rightarrow> d)"
  shows "\<exists>s3 instance_scripts s4.
    files s3 = files s \<and> net s3 = net s \<and> token s3 = token s \<and>
    script_type s3 = script_type s \<and> queries s3 = queries s @ [query_all] \<and>
    GetAttributeScripts env (getitem2 md ''instance'' ''attributes'') dest_dir s3 =
      (Inr instance_scripts, s4) \<and>
    (instance_scripts \<noteq> [] \<longrightarrow> GetScripts env dest_dir s = (Inr instance_scripts, s4)) \<and>
    (instance_scripts = [] \<longrightarrow> s4 = s3 \<and>
       GetScripts env dest_dir s =
         GetAttributeScripts env (getitem2 md ''project'' ''attributes'') dest_dir s3) \<and>
    (\<forall>key. map_of instance_scripts key = Some None \<longrightarrow>
       GetScripts env dest_dir s = (Inr instance_scripts, s4))"
proof -
  define s1 where "s1 = s\<lparr>queries := queries s @ [query_all]\<rparr>"
  define s2 where "s2 = (case getitem2 md ''instance'' ''attributes'' of
      Some d \<Rightarrow> s1 | None \<Rightarrow> logger_warning ''Instance attributes were not found.'' s1)"
  define s3 where "s3 = (case getitem2 md ''project'' ''attributes'' of
      Some d \<Rightarrow> s2 | None \<Rightarrow> logger_warning ''Project attributes were not found.'' s2)"
  have fields: "files s3 = files s \<and> net s3 = net s \<and> token s3 = token s \<and>
    script_type s3 = script_type s \<and> queries s3 = queries s @ [query_all]"
    by (simp add: s3_def s2_def s1_def logger_warning_def split: option.splits)
  obtain instance_scripts s4 where
    g: "GetAttributeScripts env (getitem2 md ''instance'' ''attributes'') dest_dir s3 =
      (Inr instance_scripts, s4)"
    using GetAttributeScripts_returns by blast
  have u: "GetScripts env dest_dir s =
     (if instance_scripts \<noteq> [] then (Inr instance_scripts, s4)
      else GetAttributeScripts env (getitem2 md ''project'' ''attributes'') dest_dir s4)"
    using GetScripts_unfold [of env dest_dir s, folded md_def, folded s1_def, folded s2_def,
        folded s3_def] g
    by simp
  have e: "instance_scripts = [] \<longrightarrow> s4 = s3"
    using g GetAttributeScripts_empty by blast
  have n: "\<forall>key. map_of instance_scripts key = Some None \<longrightarrow> instance_scripts \<noteq> []"
    by auto
  from fields g u e n show ?thesis by (intro exI [of _ s3] exI [of _ instance_scripts] exI [of _ s4]) auto
qed

text \<open>An instance that declares a script URL whose download fails, and a project that
  declares an inline script: the result is the instance's entry with \<^verbatim>\<open>None\<close>.
  An instance without script keys, or no instance attributes at all: the result is the
  project's mapping.\<close>

theorem GetScripts_instance_first_witness:
  "fst (GetScripts (unreachable\<lparr>on_GetMetadata := \<lambda>qs. Some
          [(''instance'', [(''attributes'', [(''startup-script-url'', ''https://bad.invalid/x'')])]),
           (''project'', [(''attributes'', [(''startup-script'', ''echo hi'')])])]\<rparr>)
        ''/run'' fresh_retriever) = Inr [(''startup-script-url'', None)] \<and>
   fst (GetScripts (unreachable\<lparr>on_GetMetadata := \<lambda>qs. Some
          [(''instance'', [(''attributes'', [])]),
           (''project'', [(''attributes'', [(''startup-script'', ''echo hi'')])])]\<rparr>)
        ''/run'' fresh_retriever) = Inr [(''startup-script'', Some ''/run/tmp0'')] \<and>
   GetScripts (unreachable\<lparr>on_GetMetadata := \<lambda>qs. Some
          [(''project'', [(''attributes'', [(''startup-script'', ''echo hi'')])])]\<rparr>)
        ''/run'' fresh_retriever =
     (Inr [(''startup-script'', Some ''/run/tmp0'')],
      fresh_retriever\<lparr>files := [(''/run/tmp0'', ''echo hi'')],
        logged := [warning ''Instance attributes were not found.'',
                   info ''Found startup-script in metadata.''],
        queries := [query_all]\<rparr>)"
  using
    GetScripts_instance_first [where env = "unreachable\<lparr>on_GetMetadata := \<lambda>qs. Some
          [(''instance'', [(''attributes'', [(''startup-script-url'', ''https://bad.invalid/x'')])]),
           (''project'', [(''attributes'', [(''startup-script'', ''echo hi'')])])]\<rparr>"
        and s = fresh_retriever and dest_dir = "''/run''"]
  by (simp add: GetScripts_def getitem2_def GetAttributeScripts_def DownloadScript_def rx
        DownloadUrl_def unreachable_def fresh_retriever_def lstrip_def isspace_def prims)

section \<open>\<^verbatim>\<open>GetScripts\<close>: when the project attributes are not looked at\<close>

text \<open>The functions below \<^verbatim>\<open>GetScripts\<close> add entries to the log and do not read it:
  run with more entries in front of the log, they return the same and leave the same
  state, with those entries in front.\<close>

lemma log_before_fields [simp]:
  "script_type (log_before l s) = script_type s" "token (log_before l s) = token s"
  "files (log_before l s) = files s" "net (log_before l s) = net s"
  "queries (log_before l s) = queries s" "slept (log_before l s) = slept s"
  "logged (log_before l s) = l @ logged s"
  by (simp_all add: log_before_def)
















end
